theory Spec2Isabelle
  imports Main "HOL-Library.Sublist"
begin

unbundle bit_operations_syntax

section \<open>Strings, paths and exceptions\<close>

text \<open>
  Python strings are lists of characters; a character is one of the code points
  U+0000 to U+00FF. An exception value carries its class name and the text that
  \<^verbatim>\<open>str(e)\<close> gives.
\<close>

datatype exn = Exn (exn_class: string) (exn_text: string)

text \<open>\<^verbatim>\<open>sub in s\<close> on strings and \<^verbatim>\<open>s.endswith(suf)\<close>.\<close>

definition py_in :: "string \<Rightarrow> string \<Rightarrow> bool" where
  "py_in sub s = sublist sub s"

definition endswith :: "string \<Rightarrow> string \<Rightarrow> bool" where
  "endswith s suf = suffix suf s"

text \<open>\<^verbatim>\<open>os.path.join(a, b)\<close> and \<^verbatim>\<open>os.path.basename(p)\<close> of \<^verbatim>\<open>posixpath\<close>.\<close>

definition path_join :: "string \<Rightarrow> string \<Rightarrow> string" where
  "path_join a b =
     (if prefix ''/'' b then b
      else if a = [] \<or> endswith a ''/'' then a @ b
      else a @ ''/'' @ b)"

definition basename :: "string \<Rightarrow> string" where
  "basename p = rev (takeWhile (\<lambda>c. c \<noteq> CHR ''/'') (rev p))"

section \<open>Recursive discovery (\<^verbatim>\<open>sftp-csv-validator.py\<close>)\<close>

text \<open>
  The remote namespace below a root is a finite tree. An entry has its
  \<^verbatim>\<open>filename\<close>, its \<^verbatim>\<open>st_mode\<close> and the outcome of \<^verbatim>\<open>sftp.listdir_attr\<close> on its
  path: the exception it raises, or the entries in the order the server returns them.
  The tree is as deep as the interpreter lets the recursion go, and no more.
\<close>

datatype rnode = Entry string int listing
and listing = ListError exn | Entries "rnode list"

record file_info =
  path :: string
  filename :: string

record filter_cfg =
  KEYWORD :: string
  FILE_EXTENSION :: string

text \<open>
  The directory test of the loop is the expression
  \<^verbatim>\<open>paramiko.SFTPAttributes.S_ISDIR(entry.st_mode)\<close>. The class \<^verbatim>\<open>SFTPAttributes\<close> has
  no such attribute (the test of that name is \<^verbatim>\<open>stat.S_ISDIR\<close>), so evaluating the
  expression raises \<^verbatim>\<open>AttributeError\<close>, whatever the mode. \<open>stat_S_ISDIR\<close> is the
  test of the module \<^verbatim>\<open>stat\<close>: \<^verbatim>\<open>(mode & 0o170000) == 0o040000\<close>.
\<close>

definition paramiko_S_ISDIR :: "int \<Rightarrow> exn + bool" where
  "paramiko_S_ISDIR mode =
     Inl (Exn ''AttributeError''
            (''type object '' @ [CHR 0x27] @ ''SFTPAttributes'' @ [CHR 0x27]
             @ '' has no attribute '' @ [CHR 0x27] @ ''S_ISDIR'' @ [CHR 0x27]))"

definition stat_S_ISDIR :: "int \<Rightarrow> exn + bool" where
  "stat_S_ISDIR mode = Inr ((mode AND 61440) = 16384)"

text \<open>
  The traversal with the directory test \<open>S\<close>. \<open>recurse\<close> is \<^verbatim>\<open>_recurse(path)\<close> given
  what listing \<^verbatim>\<open>path\<close> does; \<open>entries_loop\<close> is its \<^verbatim>\<open>for\<close> loop inside the
  \<^verbatim>\<open>try\<close>: an exception of the body ends the loop, the \<^verbatim>\<open>except\<close> prints it, and what
  was appended to \<^verbatim>\<open>file_list\<close> before stays; \<open>visit\<close> is the body of the loop for one
  entry, and what it raises. The results are \<^verbatim>\<open>file_list\<close> and the lines printed.
\<close>

fun visit :: "(int \<Rightarrow> exn + bool) \<Rightarrow> filter_cfg \<Rightarrow> string \<Rightarrow> rnode \<Rightarrow> exn + file_info list \<times> string list"
and entries_loop :: "(int \<Rightarrow> exn + bool) \<Rightarrow> filter_cfg \<Rightarrow> string \<Rightarrow> rnode list \<Rightarrow> file_info list \<times> string list"
and recurse :: "(int \<Rightarrow> exn + bool) \<Rightarrow> filter_cfg \<Rightarrow> string \<Rightarrow> listing \<Rightarrow> file_info list \<times> string list"
where
  "visit S cfg dir (Entry name mode l) =
     (let remote_path = path_join dir name
      in case S mode of
           Inl x \<Rightarrow> Inl x
         | Inr isdir \<Rightarrow>
             if isdir then Inr (recurse S cfg remote_path l)
             else if endswith remote_path (FILE_EXTENSION cfg) \<and> py_in (KEYWORD cfg) remote_path
             then Inr ([\<lparr>path = remote_path, filename = basename remote_path\<rparr>], [])
             else Inr ([], []))"
| "entries_loop S cfg dir [] = ([], [])"
| "entries_loop S cfg dir (entry # rest) =
     (case visit S cfg dir entry of
        Inl x \<Rightarrow> ([], [''Error listing '' @ dir @ '': '' @ exn_text x])
      | Inr (found, printed) \<Rightarrow>
          (case entries_loop S cfg dir rest of
             (found', printed') \<Rightarrow> (found @ found', printed @ printed')))"
| "recurse S cfg dir (ListError e) = ([], [''Error listing '' @ dir @ '': '' @ exn_text e])"
| "recurse S cfg dir (Entries es) = entries_loop S cfg dir es"

text \<open>\<^verbatim>\<open>list_files_recursive(sftp, remote_dir)\<close>, with the test the program names.\<close>

definition list_files_recursive ::
  "filter_cfg \<Rightarrow> (string \<Rightarrow> listing) \<Rightarrow> string \<Rightarrow> file_info list \<times> string list" where
  "list_files_recursive cfg sftp remote_dir = recurse paramiko_S_ISDIR cfg remote_dir (sftp remote_dir)"

text \<open>
  The reachable files, in the words of the specification: every non-directory entry
  that recursive descent through the directories that list reaches, with its remote
  path.
\<close>

fun reachable_in :: "string \<Rightarrow> rnode \<Rightarrow> string list"
and reachable_under :: "string \<Rightarrow> listing \<Rightarrow> string list"
where
  "reachable_in dir (Entry name mode l) =
     (if (mode AND 61440) = 16384 then reachable_under (path_join dir name) l
      else [path_join dir name])"
| "reachable_under dir (ListError e) = []"
| "reachable_under dir (Entries es) = concat (map (reachable_in dir) es)"

definition matches_filter :: "filter_cfg \<Rightarrow> string \<Rightarrow> bool" where
  "matches_filter cfg p \<longleftrightarrow> endswith p (FILE_EXTENSION cfg) \<and> py_in (KEYWORD cfg) p"

definition descriptor :: "string \<Rightarrow> file_info" where
  "descriptor p = \<lparr>path = p, filename = basename p\<rparr>"

text \<open>
  The example of the specification: \<^verbatim>\<open>/data\<close> holds two reports (mode \<^verbatim>\<open>0o100644\<close>,
  33188), a directory (mode \<^verbatim>\<open>0o040755\<close>, 16877) whose listing fails and, after it, a
  directory with two more files; no other path lists.
\<close>

definition example_cfg :: filter_cfg where
  "example_cfg = \<lparr>KEYWORD = ''target'', FILE_EXTENSION = ''.csv''\<rparr>"

definition not_a_directory :: listing where
  "not_a_directory = ListError (Exn ''OSError'' ''Failure'')"

definition example_remote :: "string \<Rightarrow> listing" where
  "example_remote d =
     (if d = ''/data''
      then Entries [Entry ''target_report.csv'' 33188 not_a_directory,
                    Entry ''other_report.csv'' 33188 not_a_directory,
                    Entry ''locked'' 16877 (ListError (Exn ''PermissionError'' ''Permission denied'')),
                    Entry ''archive'' 16877
                      (Entries [Entry ''notes.txt'' 33188 not_a_directory,
                                Entry ''target_old.csv'' 33188 not_a_directory])]
      else ListError (Exn ''FileNotFoundError'' ''No such file''))"

section \<open>Flat discovery (the two deleting programs)\<close>

record sftp_attr =
  attr_filename :: string
  st_mode :: int

definition CSV_EXTENSION :: string where
  "CSV_EXTENSION = ''.csv''"

text \<open>
  \<^verbatim>\<open>list_csv_files(sftp, directory)\<close>, given what \<^verbatim>\<open>sftp.listdir_attr(directory)\<close>
  does; the second component is the line printed or logged. The mask \<^verbatim>\<open>0o40000\<close> is
  16384.
\<close>

definition list_csv_files :: "(string \<Rightarrow> exn + sftp_attr list) \<Rightarrow> string \<Rightarrow> string list \<times> string list" where
  "list_csv_files listdir_attr directory =
     (case listdir_attr directory of
        Inl e \<Rightarrow> ([], [''Error accessing directory '' @ directory @ '': '' @ exn_text e])
      | Inr entries \<Rightarrow>
          (map attr_filename
             (filter (\<lambda>entry. endswith (attr_filename entry) CSV_EXTENSION
                               \<and> (st_mode entry AND 16384) = 0) entries), []))"

section \<open>Batching of the discovered files\<close>

text \<open>
  Both deleting variants (\<^verbatim>\<open>delete_csv_files_via_sftp.py\<close> and
  \<^verbatim>\<open>fetch_and_delete_files_in_parallel.py\<close>) walk the discovered list with
  \<^verbatim>\<open>for i in range(0, len(files), BATCH_SIZE): batch = files[i:i + BATCH_SIZE]\<close>.
\<close>

definition BATCH_SIZE :: nat where
  "BATCH_SIZE = 50"

text \<open>
  \<^verbatim>\<open>range(start, stop, step)\<close> for non-negative arguments. Python raises
  \<^verbatim>\<open>ValueError\<close> for a zero step; the only step the program passes is the constant
  \<^verbatim>\<open>BATCH_SIZE\<close>, and the model yields no index for a zero step.
\<close>

function range_step :: "nat \<Rightarrow> nat \<Rightarrow> nat \<Rightarrow> nat list" where
  "range_step i stop step =
     (if step = 0 \<or> stop \<le> i then [] else i # range_step (i + step) stop step)"
  by pat_completeness auto
termination
  by (relation "measure (\<lambda>(i, stop, step). stop - i)") auto

text \<open>The slice \<^verbatim>\<open>xs[i:j]\<close> for \<open>0 \<le> i \<le> j\<close>; it is clipped at the end of the list.\<close>

definition slice :: "'a list \<Rightarrow> nat \<Rightarrow> nat \<Rightarrow> 'a list" where
  "slice xs i j = take (j - i) (drop i xs)"

definition batches :: "'a list \<Rightarrow> 'a list list" where
  "batches files =
     map (\<lambda>i. slice files i (i + BATCH_SIZE)) (range_step 0 (length files) BATCH_SIZE)"

section \<open>Retry (\<^verbatim>\<open>safe_sftp_operation\<close>)\<close>

text \<open>
  The operation \<^verbatim>\<open>func\<close> is a closure over the outside world: one invocation takes
  the world as it is, raises or returns, and leaves a new world. The result of
  \<^verbatim>\<open>safe_sftp_operation\<close> is the exception it raises (\<open>Inl\<close>), the value that
  \<^verbatim>\<open>return func()\<close> returns (\<open>Inr (Some v)\<close>), or the \<^verbatim>\<open>None\<close> of the final
  \<^verbatim>\<open>return None\<close> (\<open>Inr None\<close>). \<open>retry_loop\<close> is the \<^verbatim>\<open>for\<close> loop over the
  attempts that remain.
\<close>

fun retry_loop :: "('s \<Rightarrow> (exn + 'a) \<times> 's) \<Rightarrow> int \<Rightarrow> int list \<Rightarrow> 's \<Rightarrow> (exn + 'a option) \<times> 's" where
  "retry_loop func max_retries [] s = (Inr None, s)"
| "retry_loop func max_retries (attempt # rest) s =
     (case func s of
        (Inr v, s') \<Rightarrow> (Inr (Some v), s')
      | (Inl e, s') \<Rightarrow>
          if attempt = max_retries - 1 then (Inl e, s')
          else retry_loop func max_retries rest s')"

definition safe_sftp_operation :: "('s \<Rightarrow> (exn + 'a) \<times> 's) \<Rightarrow> int \<Rightarrow> 's \<Rightarrow> (exn + 'a option) \<times> 's" where
  "safe_sftp_operation func max_retries s = retry_loop func max_retries [0..max_retries - 1] s"

definition DEFAULT_MAX_RETRIES :: int where
  "DEFAULT_MAX_RETRIES = 3"

text \<open>The outcome and the world of the \<open>k\<close>-th invocation in a row, counted from 0.\<close>

fun world_after :: "('s \<Rightarrow> (exn + 'a) \<times> 's) \<Rightarrow> 's \<Rightarrow> nat \<Rightarrow> 's" where
  "world_after func s 0 = s"
| "world_after func s (Suc k) = world_after func (snd (func s)) k"

definition outcome :: "('s \<Rightarrow> (exn + 'a) \<times> 's) \<Rightarrow> 's \<Rightarrow> nat \<Rightarrow> exn + 'a" where
  "outcome func s k = fst (func (world_after func s k))"

section \<open>The default validator\<close>

text \<open>\<^verbatim>\<open>str.isspace\<close> on the code points up to U+00FF, and \<^verbatim>\<open>str.strip()\<close>.\<close>

definition isspace :: "char \<Rightarrow> bool" where
  "isspace c \<longleftrightarrow>
     c \<in> set [CHR 0x09, CHR 0x0A, CHR 0x0B, CHR 0x0C, CHR 0x0D, CHR 0x1C, CHR 0x1D,
              CHR 0x1E, CHR 0x1F, CHR 0x20, CHR 0x85, CHR 0xA0]"

definition strip :: "string \<Rightarrow> string" where
  "strip s = rev (dropWhile isspace (rev (dropWhile isspace s)))"

definition validate_csv :: "string \<Rightarrow> string list \<times> string list \<times> string list" where
  "validate_csv csv_content =
     (if strip csv_content = [] then ([''CSV content is empty''], [], [])
      else ([], [], [''CSV read successfully'']))"

text \<open>\<^verbatim>\<open>"invalid" if errors else "valid"\<close>.\<close>

definition validation_state :: "string list \<Rightarrow> string" where
  "validation_state errors = (if errors \<noteq> [] then ''invalid'' else ''valid'')"

section \<open>The result sink: log file and database\<close>

text \<open>
  \<^verbatim>\<open>json.dumps\<close> of a list of strings, with the default \<^verbatim>\<open>ensure_ascii\<close>: the
  characters outside \<^verbatim>\<open>' '..'~'\<close>, the quote and the backslash are escaped.
\<close>

definition hex_digit :: "nat \<Rightarrow> char" where
  "hex_digit n = ''0123456789abcdef'' ! (n mod 16)"

definition json_escape :: "char \<Rightarrow> string" where
  "json_escape c =
     (if c = CHR 0x22 then [CHR 0x5C, CHR 0x22]
      else if c = CHR 0x5C then [CHR 0x5C, CHR 0x5C]
      else if c = CHR 0x0A then [CHR 0x5C, CHR ''n'']
      else if c = CHR 0x0D then [CHR 0x5C, CHR ''r'']
      else if c = CHR 0x09 then [CHR 0x5C, CHR ''t'']
      else if c = CHR 0x08 then [CHR 0x5C, CHR ''b'']
      else if c = CHR 0x0C then [CHR 0x5C, CHR ''f'']
      else if 32 \<le> (of_char c :: nat) \<and> (of_char c :: nat) \<le> 126 then [c]
      else [CHR 0x5C, CHR ''u'', CHR ''0'', CHR ''0'',
            hex_digit ((of_char c :: nat) div 16), hex_digit (of_char c :: nat)])"

fun join_with :: "string \<Rightarrow> string list \<Rightarrow> string" where
  "join_with sep [] = []"
| "join_with sep [x] = x"
| "join_with sep (x # y # ys) = x @ sep @ join_with sep (y # ys)"

definition json_dumps :: "string list \<Rightarrow> string" where
  "json_dumps xs =
     ''['' @ join_with '', '' (map (\<lambda>x. [CHR 0x22] @ concat (map json_escape x) @ [CHR 0x22]) xs) @ '']''"

text \<open>
  The world of the validating program: the text of \<^verbatim>\<open>LOG_FILE\<close> and the table
  \<^verbatim>\<open>results\<close> of \<^verbatim>\<open>DB_FILE\<close> (\<open>None\<close> while the table does not exist). A row holds the
  five columns the program supplies; the engine adds \<^verbatim>\<open>id\<close> and \<^verbatim>\<open>timestamp\<close>.
\<close>

type_synonym db_row = "string \<times> string \<times> string \<times> string \<times> string"

record world =
  log_file :: string
  results_table :: "db_row list option"

definition initialize_database :: "world \<Rightarrow> world" where
  "initialize_database w =
     (case results_table w of None \<Rightarrow> w\<lparr>results_table := Some []\<rparr> | Some rows \<Rightarrow> w)"

text \<open>
  A write to the sink either raises and leaves the sink as it was, or takes place.
  The first argument is what the environment does to this write.
\<close>

definition append_log :: "exn option \<Rightarrow> string \<Rightarrow> world \<Rightarrow> exn option \<times> world" where
  "append_log fault log_line w =
     (case fault of
        Some e \<Rightarrow> (Some e, w)
      | None \<Rightarrow> (None, w\<lparr>log_file := log_file w @ log_line\<rparr>))"

definition save_to_database ::
  "exn option \<Rightarrow> string \<Rightarrow> string \<Rightarrow> string list \<Rightarrow> string list \<Rightarrow> string list \<Rightarrow> world \<Rightarrow> exn option \<times> world" where
  "save_to_database fault fname state errors warnings info w =
     (case fault of
        Some e \<Rightarrow> (Some e, w)
      | None \<Rightarrow>
          (case results_table w of
             None \<Rightarrow> (Some (Exn ''OperationalError'' ''no such table: results''), w)
           | Some rows \<Rightarrow>
               (None, w\<lparr>results_table :=
                  Some (rows @ [(fname, state, json_dumps errors, json_dumps warnings, json_dumps info)])\<rparr>)))"

text \<open>From one world to a later one, the log and the table have only grown at the end.\<close>

definition only_appends :: "world \<Rightarrow> world \<Rightarrow> bool" where
  "only_appends w w' \<longleftrightarrow>
     prefix (log_file w) (log_file w')
     \<and> (case results_table w of
          None \<Rightarrow> results_table w' = None
        | Some rows \<Rightarrow> (case results_table w' of None \<Rightarrow> False | Some rows' \<Rightarrow> prefix rows rows'))"

section \<open>One task (\<^verbatim>\<open>process_file\<close>)\<close>

text \<open>
  What the environment does to the input and output of one task: to the successive
  calls of \<^verbatim>\<open>sftp.get\<close>, to reading the local copy, to the append in the \<^verbatim>\<open>try\<close>
  block, to the insert, and to the append in the \<^verbatim>\<open>except\<close> block.
\<close>

record task_io =
  get_outcome :: "nat \<Rightarrow> exn option"
  read_outcome :: "exn + string"
  log_outcome :: "exn option"
  db_outcome :: "exn option"
  error_log_outcome :: "exn option"

definition sftp_get_attempt :: "task_io \<Rightarrow> nat \<Rightarrow> (exn + unit) \<times> nat" where
  "sftp_get_attempt io k = ((case get_outcome io k of Some e \<Rightarrow> Inl e | None \<Rightarrow> Inr ()), Suc k)"

text \<open>
  The \<^verbatim>\<open>except Exception as e\<close> block; what it returns is the exception that leaves
  the task. The traceback it prints to the console is not part of the world.
\<close>

definition except_block :: "task_io \<Rightarrow> string \<Rightarrow> exn \<Rightarrow> world \<Rightarrow> exn option \<times> world" where
  "except_block io fname e w =
     append_log (error_log_outcome io) (fname @ '',error,'' @ exn_text e @ '',,'' @ [CHR 0x0A]) w"

definition process_file :: "task_io \<Rightarrow> file_info \<Rightarrow> world \<Rightarrow> exn option \<times> world" where
  "process_file io file w =
     (let fname = filename file in
      case fst (safe_sftp_operation (sftp_get_attempt io) DEFAULT_MAX_RETRIES 0) of
        Inl e \<Rightarrow> except_block io fname e w
      | Inr _ \<Rightarrow>
          (case read_outcome io of
             Inl e \<Rightarrow> except_block io fname e w
           | Inr csv_content \<Rightarrow>
               (case validate_csv csv_content of (errors, warnings, info) \<Rightarrow>
                 (let state = validation_state errors;
                      log_line = fname @ '','' @ state @ '','' @ json_dumps errors @ '',''
                                 @ json_dumps warnings @ '','' @ json_dumps info @ [CHR 0x0A]
                  in (case append_log (log_outcome io) log_line w of
                        (Some e, w1) \<Rightarrow> except_block io fname e w1
                      | (None, w1) \<Rightarrow>
                          (case save_to_database (db_outcome io) fname state errors warnings info w1 of
                             (Some e, w2) \<Rightarrow> except_block io fname e w2
                           | (None, w2) \<Rightarrow> (None, w2)))))))"

section \<open>One run (\<^verbatim>\<open>fetch_and_validate_sftp_files\<close>)\<close>

definition LOG_HEADER :: string where
  "LOG_HEADER = ''File,Validation State,Errors,Warnings,Info'' @ [CHR 0x0A]"

record run_io =
  connect_outcome :: "exn option"
  remote :: "string \<Rightarrow> listing"
  task_io_of :: "nat \<Rightarrow> task_io"
  completion_rank :: "nat \<Rightarrow> nat"

text \<open>
  The pool runs the submitted tasks in an order of its own. The environment ranks the
  tasks; the \<open>k\<close>-th submitted task meets the environment \<open>tio k\<close>, and the tasks take
  effect by rising rank, equal ranks in the order of submission. \<open>run_in_order\<close> runs
  the tasks whose indices it is given (indices below the number of files, as
  \<open>run_tasks\<close> gives them) and pairs each index with what the task raises.
\<close>

fun run_in_order ::
  "(nat \<Rightarrow> task_io) \<Rightarrow> file_info list \<Rightarrow> nat list \<Rightarrow> world \<Rightarrow> (nat \<times> exn option) list \<times> world" where
  "run_in_order tio files [] w = ([], w)"
| "run_in_order tio files (k # ks) w =
     (case process_file (tio k) (files ! k) w of (r, w1) \<Rightarrow>
        (case run_in_order tio files ks w1 of (rs, w2) \<Rightarrow> ((k, r) # rs, w2)))"

text \<open>The list returned holds what each \<^verbatim>\<open>task.result()\<close> raises, in the order of submission.\<close>

definition run_tasks ::
  "(nat \<Rightarrow> task_io) \<Rightarrow> (nat \<Rightarrow> nat) \<Rightarrow> file_info list \<Rightarrow> world \<Rightarrow> exn option list \<times> world" where
  "run_tasks tio rank files w =
     (case run_in_order tio files (sort_key rank [0..<length files]) w of
        (finished, w1) \<Rightarrow>
          (map (\<lambda>k. case map_of finished k of Some r \<Rightarrow> r | None \<Rightarrow> None) [0..<length files], w1))"

fun first_raised :: "exn option list \<Rightarrow> exn option" where
  "first_raised [] = None"
| "first_raised (None # rs) = first_raised rs"
| "first_raised (Some e # rs) = Some e"

text \<open>The result: the exception that leaves the run, the lines printed, the world.\<close>

definition fetch_and_validate_sftp_files ::
  "filter_cfg \<Rightarrow> string list \<Rightarrow> run_io \<Rightarrow> world \<Rightarrow> exn option \<times> string list \<times> world" where
  "fetch_and_validate_sftp_files cfg ROOT_DIRECTORIES io w =
     (let w0 = w\<lparr>log_file := LOG_HEADER\<rparr> in
      case connect_outcome io of
        Some e \<Rightarrow> (Some e, [], w0)
      | None \<Rightarrow>
          (let found = map (list_files_recursive cfg (remote io)) ROOT_DIRECTORIES
           in case run_tasks (task_io_of io) (completion_rank io) (concat (map fst found)) w0 of
                (results, w1) \<Rightarrow> (first_raised results, concat (map snd found), w1)))"

text \<open>An environment in which every operation of every task succeeds, and an old world.\<close>

definition example_task_io :: task_io where
  "example_task_io =
     \<lparr>get_outcome = (\<lambda>k. None), read_outcome = Inr ''id,name'', log_outcome = None,
      db_outcome = None, error_log_outcome = None\<rparr>"

definition example_run_io :: run_io where
  "example_run_io =
     \<lparr>connect_outcome = None, remote = example_remote, task_io_of = (\<lambda>k. example_task_io),
      completion_rank = (\<lambda>k. 0)\<rparr>"

definition example_world :: world where
  "example_world =
     \<lparr>log_file = LOG_HEADER @ ''old.csv,valid,[],[],[]'' @ [CHR 0x0A],
      results_table = Some [(''old.csv'', ''valid'', ''[]'', ''[]'', ''[]'')]\<rparr>"

text \<open>
  One file and three more environments: the insert fails, every fetch fails, the file
  holds white space only.
\<close>

definition example_file :: file_info where
  "example_file = \<lparr>path = ''/data/target_report.csv'', filename = ''target_report.csv''\<rparr>"

definition db_locked_io :: task_io where
  "db_locked_io = example_task_io\<lparr>db_outcome := Some (Exn ''OperationalError'' ''database is locked'')\<rparr>"

definition fetch_fails_io :: task_io where
  "fetch_fails_io = example_task_io\<lparr>get_outcome := (\<lambda>k. Some (Exn ''OSError'' ''Failure''))\<rparr>"

definition blank_io :: task_io where
  "blank_io = example_task_io\<lparr>read_outcome := Inr ('' '' @ [CHR 0x0A])\<rparr>"

definition header_world :: world where
  "header_world = \<lparr>log_file = LOG_HEADER, results_table = Some []\<rparr>"

text \<open>A log with one valid record and two error records.\<close>

definition mixed_log :: string where
  "mixed_log =
     LOG_HEADER
     @ ''a.csv,valid,[],[],[]'' @ [CHR 0x0A]
     @ ''b.csv,error,Failure,,'' @ [CHR 0x0A]
     @ ''c.csv,error,timed out,,'' @ [CHR 0x0A]"

section \<open>The summary (\<^verbatim>\<open>generate_summary_report\<close>)\<close>

text \<open>
  Reading a text file line by line: the line ends \<^verbatim>\<open>\r\n\<close> and \<^verbatim>\<open>\r\<close> become
  \<^verbatim>\<open>\n\<close>, and every line keeps its \<^verbatim>\<open>\n\<close>.
\<close>

fun translate_newlines :: "string \<Rightarrow> string" where
  "translate_newlines [] = []"
| "translate_newlines [c] = (if c = CHR 0x0D then [CHR 0x0A] else [c])"
| "translate_newlines (c # d # cs) =
     (if c = CHR 0x0D \<and> d = CHR 0x0A then CHR 0x0A # translate_newlines cs
      else if c = CHR 0x0D then CHR 0x0A # translate_newlines (d # cs)
      else c # translate_newlines (d # cs))"

fun split_lines :: "string \<Rightarrow> string \<Rightarrow> string list" where
  "split_lines cur [] = (if cur = [] then [] else [cur])"
| "split_lines cur (c # cs) =
     (if c = CHR 0x0A then (cur @ [c]) # split_lines [] cs else split_lines (cur @ [c]) cs)"

definition file_lines :: "string \<Rightarrow> string list" where
  "file_lines content = split_lines [] (translate_newlines content)"

record summary =
  total_files :: nat
  valid_files :: nat
  invalid_files :: nat

fun count_lines :: "summary \<Rightarrow> string list \<Rightarrow> summary" where
  "count_lines s [] = s"
| "count_lines s (line # rest) =
     count_lines
       (let s1 = s\<lparr>total_files := total_files s + 1\<rparr>
        in if py_in ''valid'' line then s1\<lparr>valid_files := valid_files s1 + 1\<rparr>
           else if py_in ''invalid'' line then s1\<lparr>invalid_files := invalid_files s1 + 1\<rparr>
           else s1)
       rest"

function str_nat :: "nat \<Rightarrow> string" where
  "str_nat n = (if n < 10 then [''0123456789'' ! n] else str_nat (n div 10) @ [''0123456789'' ! (n mod 10)])"
  by pat_completeness auto
termination
  by (relation "measure id") auto

definition summary_text :: "summary \<Rightarrow> string" where
  "summary_text s =
     ''Validation Summary:'' @ [CHR 0x0A]
     @ ''Total Files: '' @ str_nat (total_files s) @ [CHR 0x0A]
     @ ''Valid Files: '' @ str_nat (valid_files s) @ [CHR 0x0A]
     @ ''Invalid Files: '' @ str_nat (invalid_files s)"

text \<open>
  The argument is the text of the log file. \<^verbatim>\<open>next(log)\<close> raises \<^verbatim>\<open>StopIteration\<close>
  on a file with no line. The result holds the three counters and the text returned.
\<close>

definition generate_summary_report :: "string \<Rightarrow> exn + summary \<times> string" where
  "generate_summary_report content =
     (case file_lines content of
        [] \<Rightarrow> Inl (Exn ''StopIteration'' [])
      | header # records \<Rightarrow>
          (let s = count_lines \<lparr>total_files = 0, valid_files = 0, invalid_files = 0\<rparr> records
           in Inr (s, summary_text s)))"

text \<open>
  Two operations whose world is the number of invocations so far: one raises on every
  invocation, one raises twice and then returns.
\<close>

definition always_fails :: "nat \<Rightarrow> (exn + nat) \<times> nat" where
  "always_fails k = (Inl (Exn ''IOError'' (''failure '' @ str_nat (Suc k))), Suc k)"

definition fails_twice :: "nat \<Rightarrow> (exn + nat) \<times> nat" where
  "fails_twice k =
     (if k < 2 then Inl (Exn ''IOError'' (''failure '' @ str_nat (Suc k))) else Inr (Suc k), Suc k)"

section \<open>Fetch, then delete (the two deleting programs)\<close>

text \<open>
  The server is a state of any type with the three operations the programs call. A
  session holds the server's state, the remote calls made so far with what each did,
  and the lines printed or logged.
\<close>

datatype call = GetCall string string "exn option" | RemoveCall string "exn option"

record 'w sftp_server =
  do_listdir_attr :: "string \<Rightarrow> 'w \<Rightarrow> exn + sftp_attr list"
  do_get :: "string \<Rightarrow> string \<Rightarrow> 'w \<Rightarrow> exn option \<times> 'w"
  do_remove :: "string \<Rightarrow> 'w \<Rightarrow> exn option \<times> 'w"

record 'w session =
  remote_state :: 'w
  calls :: "call list"
  logged :: "string list"

definition sftp_get :: "'w sftp_server \<Rightarrow> string \<Rightarrow> string \<Rightarrow> 'w session \<Rightarrow> exn option \<times> 'w session" where
  "sftp_get srv remote_path local_path s =
     (case do_get srv remote_path local_path (remote_state s) of
        (r, w') \<Rightarrow> (r, s\<lparr>remote_state := w', calls := calls s @ [GetCall remote_path local_path r]\<rparr>))"

definition sftp_remove :: "'w sftp_server \<Rightarrow> string \<Rightarrow> 'w session \<Rightarrow> exn option \<times> 'w session" where
  "sftp_remove srv remote_path s =
     (case do_remove srv remote_path (remote_state s) of
        (r, w') \<Rightarrow> (r, s\<lparr>remote_state := w', calls := calls s @ [RemoveCall remote_path r]\<rparr>))"

definition say :: "string \<Rightarrow> 'w session \<Rightarrow> 'w session" where
  "say line s = s\<lparr>logged := logged s @ [line]\<rparr>"

text \<open>\<^verbatim>\<open>fetch_and_delete_file\<close> of \<^verbatim>\<open>fetch_and_delete_files_in_parallel.py\<close>: one task.\<close>

definition fetch_and_delete_file ::
  "'w sftp_server \<Rightarrow> string \<Rightarrow> string \<Rightarrow> string \<Rightarrow> 'w session \<Rightarrow> 'w session" where
  "fetch_and_delete_file srv LOCAL_DIRECTORY remote_directory fname s =
     (let remote_path = path_join remote_directory fname;
          local_path = path_join LOCAL_DIRECTORY fname
      in case sftp_get srv remote_path local_path s of
           (Some e, s1) \<Rightarrow> say (''Error processing file '' @ fname @ '': '' @ exn_text e) s1
         | (None, s1) \<Rightarrow>
             (case sftp_remove srv remote_path (say (''Fetched: '' @ fname) s1) of
                (Some e, s2) \<Rightarrow> say (''Error processing file '' @ fname @ '': '' @ exn_text e) s2
              | (None, s2) \<Rightarrow> say (''Deleted: '' @ fname) s2))"

text \<open>
  \<^verbatim>\<open>fetch_and_delete_files\<close> of \<^verbatim>\<open>delete_csv_files_via_sftp.py\<close>: \<open>fetch_one\<close> is the
  body of the inner loop, \<open>fetch_batch\<close> the body of the outer one for the index \<open>i\<close>.
\<close>

definition fetch_one :: "'w sftp_server \<Rightarrow> string \<Rightarrow> string \<Rightarrow> 'w session \<Rightarrow> string \<Rightarrow> 'w session" where
  "fetch_one srv remote_directory local_directory s fname =
     (let remote_path = path_join remote_directory fname;
          local_path = path_join local_directory fname
      in case sftp_get srv remote_path local_path s of
           (Some e, s1) \<Rightarrow> say (''Error processing file '' @ fname @ '': '' @ exn_text e) s1
         | (None, s1) \<Rightarrow>
             (case sftp_remove srv remote_path (say (''Fetched: '' @ fname @ '' -> '' @ local_path) s1) of
                (Some e, s2) \<Rightarrow> say (''Error processing file '' @ fname @ '': '' @ exn_text e) s2
              | (None, s2) \<Rightarrow> say (''Deleted: '' @ remote_path) s2))"

definition fetch_batch ::
  "'w sftp_server \<Rightarrow> string \<Rightarrow> string \<Rightarrow> string list \<Rightarrow> 'w session \<Rightarrow> nat \<Rightarrow> 'w session" where
  "fetch_batch srv remote_directory local_directory files s i =
     (let batch = slice files i (i + BATCH_SIZE)
      in foldl (fetch_one srv remote_directory local_directory)
           (say (''Processing batch '' @ str_nat (i div BATCH_SIZE + 1) @ '': ''
                 @ str_nat (length batch) @ '' files'') s)
           batch)"

definition fetch_and_delete_files :: "'w sftp_server \<Rightarrow> string \<Rightarrow> string \<Rightarrow> 'w session \<Rightarrow> 'w session" where
  "fetch_and_delete_files srv remote_directory local_directory s =
     (case list_csv_files (\<lambda>d. do_listdir_attr srv d (remote_state s)) remote_directory of
        (files, printed) \<Rightarrow>
          foldl (fetch_batch srv remote_directory local_directory files)
            (say (''Found '' @ str_nat (length files) @ '' .csv files in '' @ remote_directory)
               (s\<lparr>logged := logged s @ printed\<rparr>))
            (range_step 0 (length files) BATCH_SIZE))"

text \<open>
  A server whose state is the list of the names in its one directory: \<^verbatim>\<open>get\<close> fails
  for \<^verbatim>\<open>b.csv\<close>, \<^verbatim>\<open>remove\<close> takes the name away.
\<close>

definition example_server :: "string list sftp_server" where
  "example_server =
     \<lparr>do_listdir_attr = (\<lambda>d names. Inr (map (\<lambda>n. \<lparr>attr_filename = n, st_mode = 33188\<rparr>) names)),
      do_get = (\<lambda>remote_path local_path names.
                  if remote_path = ''/in/b.csv'' then (Some (Exn ''OSError'' ''Failure''), names)
                  else (None, names)),
      do_remove = (\<lambda>remote_path names.
                  (None, filter (\<lambda>n. path_join ''/in'' n \<noteq> remote_path) names))\<rparr>"

definition example_session :: "string list session" where
  "example_session = \<lparr>remote_state = [''a.csv'', ''b.csv'', ''notes.txt''], calls = [], logged = []\<rparr>"

text \<open>
  The order the remote calls may have: a \<^verbatim>\<open>remove\<close> of a path comes right after a
  \<^verbatim>\<open>get\<close> of the same path that returned. \<open>prev\<close> is the call before.
\<close>

fun delete_follows_fetch :: "call option \<Rightarrow> call list \<Rightarrow> bool" where
  "delete_follows_fetch prev [] = True"
| "delete_follows_fetch prev (GetCall rp lp r # cs) = delete_follows_fetch (Some (GetCall rp lp r)) cs"
| "delete_follows_fetch prev (RemoveCall rp r # cs) =
     ((case prev of Some (GetCall rp' lp None) \<Rightarrow> rp' = rp | _ \<Rightarrow> False)
      \<and> delete_follows_fetch (Some (RemoveCall rp r)) cs)"

section \<open>Properties of the batching\<close>

lemma range_step_done: "stop \<le> i \<Longrightarrow> range_step i stop step = []"
  by simp

lemma range_step_more:
  "0 < step \<Longrightarrow> i < stop \<Longrightarrow> range_step i stop step = i # range_step (i + step) stop step"
  by simp

declare range_step.simps [simp del]

lemma concat_batches_from:
  "0 < step \<Longrightarrow>
   concat (map (\<lambda>i. slice xs i (i + step)) (range_step i (length xs) step)) = drop i xs"
proof (induction i "length xs" step rule: range_step.induct)
  case (1 i step)
  show ?case
  proof (cases "length xs \<le> i")
    case True
    then show ?thesis by (simp add: range_step_done)
  next
    case False
    with 1 have IH: "concat (map (\<lambda>i. slice xs i (i + step)) (range_step (i + step) (length xs) step))
                     = drop (i + step) xs"
      by simp
    have "take step (drop i xs) @ drop (i + step) xs = drop i xs"
      by (metis append_take_drop_id drop_drop add.commute)
    with False 1(2) IH show ?thesis
      by (simp add: range_step_more slice_def)
  qed
qed

lemma lengths_batches_from:
  "0 < step \<Longrightarrow> i \<le> n \<Longrightarrow> length xs = n \<Longrightarrow>
   map (\<lambda>i. length (slice xs i (i + step))) (range_step i n step)
     = replicate ((n - i) div step) step @ (if (n - i) mod step = 0 then [] else [(n - i) mod step])"
proof (induction i n step rule: range_step.induct)
  case (1 i n step)
  show ?case
  proof (cases "n \<le> i")
    case True
    with 1(3) have "n = i" by simp
    then show ?thesis by (simp add: range_step_done)
  next
    case False
    show ?thesis
    proof (cases "i + step \<le> n")
      case True
      have IH: "map (\<lambda>i. length (slice xs i (i + step))) (range_step (i + step) n step)
          = replicate ((n - (i + step)) div step) step
            @ (if (n - (i + step)) mod step = 0 then [] else [(n - (i + step)) mod step])"
        using 1(1) [OF _ 1(2) True 1(4)] False 1(2) by simp
      from True have eq: "n - i = (n - (i + step)) + step" by simp
      have d: "(n - i) div step = Suc ((n - (i + step)) div step)"
        using 1(2) by (subst eq) (simp only: div_add_self2 Suc_eq_plus1)
      have m: "(n - i) mod step = (n - (i + step)) mod step"
        by (subst eq) (simp only: mod_add_self2)
      have len: "length (slice xs i (i + step)) = step"
        using True 1(4) by (simp add: slice_def)
      have r: "range_step i n step = i # range_step (i + step) n step"
        using False 1(2) by (simp add: range_step_more)
      show ?thesis unfolding r d m by (simp add: IH len)
    next
      case F2: False
      then have r2: "range_step (i + step) n step = []" by (simp add: range_step_done)
      have r: "range_step i n step = [i]"
        using False 1(2) r2 by (simp add: range_step_more)
      from F2 False have dm: "(n - i) div step = 0" "(n - i) mod step = n - i" by simp_all
      have len: "length (slice xs i (i + step)) = n - i"
        using F2 False 1(4) by (simp add: slice_def)
      show ?thesis unfolding r dm using False by (simp add: len)
    qed
  qed
qed

lemma ceil_div_50: "(n::nat) div 50 + (if n mod 50 = 0 then 0 else 1) = (n + 49) div 50"
proof -
  define q r where "q = n div 50" and "r = n mod 50"
  have n: "n = q * 50 + r" and r: "r < 50" by (simp_all add: q_def r_def)
  have "(n + 49) div 50 = q + (r + 49) div 50"
    unfolding n by (simp add: add.assoc)
  moreover have "(r + 49) div 50 = (if r = 0 then 0 else 1)"
    using r by (auto simp: div_eq_0_iff intro!: Euclidean_Rings.div_nat_eqI)
  ultimately show ?thesis by (simp add: q_def r_def)
qed

text \<open>
  C7. A list of \<open>n\<close> files is cut, in order, into \<open>\<lceil>n / 50\<rceil>\<close> contiguous batches:
  \<open>n div 50\<close> batches of exactly 50 files, then one more of \<open>n mod 50\<close> files when 50 does
  not divide \<open>n\<close>. The batches in the order of dispatch concatenate back to the list, so
  every file is in exactly one batch.
\<close>

theorem batches_partition:
  "concat (batches files) = files
   \<and> length (batches files) = (length files + 49) div 50
   \<and> map length (batches files)
       = replicate (length files div 50) 50
         @ (if length files mod 50 = 0 then [] else [length files mod 50])"
proof -
  have "concat (batches files) = drop 0 files"
    unfolding batches_def BATCH_SIZE_def by (rule concat_batches_from) simp
  then have c: "concat (batches files) = files"
    by simp
  have "map (\<lambda>i. length (slice files i (i + 50))) (range_step 0 (length files) 50)
       = replicate ((length files - 0) div 50) 50
         @ (if (length files - 0) mod 50 = 0 then [] else [(length files - 0) mod 50])"
    by (rule lengths_batches_from) simp_all
  then have l: "map length (batches files)
       = replicate (length files div 50) 50
         @ (if length files mod 50 = 0 then [] else [length files mod 50])"
    unfolding batches_def BATCH_SIZE_def by (simp add: comp_def)
  have "length (batches files) = length (map length (batches files))"
    by (simp only: length_map)
  also have "\<dots> = length files div 50 + (if length files mod 50 = 0 then 0 else 1)"
    unfolding l by simp
  also have "\<dots> = (length files + 49) div 50"
    by (rule ceil_div_50)
  finally have n: "length (batches files) = (length files + 49) div 50" .
  show ?thesis by (intro conjI c n l)
qed

theorem batches_partition_witness:
  "concat (batches (replicate 120 ''f.csv'')) = replicate 120 ''f.csv''
   \<and> length (batches (replicate 120 ''f.csv'')) = 3
   \<and> map length (batches (replicate 120 ''f.csv'')) = [50, 50, 20]"
proof -
  have "replicate 2 (50::nat) = [50, 50]"
    by (simp add: numeral_2_eq_2)
  then show ?thesis
    using batches_partition [of "replicate 120 ''f.csv''"] by simp
qed

section \<open>Properties of the discovery\<close>

lemmas path_eval = matches_filter_def descriptor_def endswith_def py_in_def path_join_def
  basename_def suffix_to_prefix sublist_code(3)

text \<open>
  With the test the program names, a listing that has an entry ends at the first one:
  no file is matched and no subdirectory is entered.
\<close>

lemma recurse_paramiko:
  "recurse paramiko_S_ISDIR cfg dir l
     = (case l of
          ListError e \<Rightarrow> ([], [''Error listing '' @ dir @ '': '' @ exn_text e])
        | Entries [] \<Rightarrow> ([], [])
        | Entries (entry # rest) \<Rightarrow>
            ([], [''Error listing '' @ dir @ '': '' @ exn_text (projl (paramiko_S_ISDIR 0))]))"
proof (cases l)
  case (ListError e)
  then show ?thesis by simp
next
  case (Entries es)
  show ?thesis
  proof (cases es)
    case Nil
    with Entries show ?thesis by simp
  next
    case (Cons entry rest)
    obtain name mode sub where "entry = Entry name mode sub" by (cases entry)
    with Entries Cons show ?thesis by (simp add: paramiko_S_ISDIR_def)
  qed
qed

lemma nothing_found: "fst (list_files_recursive cfg sftp root) = []"
  by (simp add: list_files_recursive_def recurse_paramiko split: listing.splits list.splits)

text \<open>
  With a directory test that works, the traversal finds exactly the reachable files
  that match the filter, and a listing that fails is passed over.
\<close>

lemma visit_with_stat_test:
  "\<exists>printed. visit stat_S_ISDIR cfg dir n
      = Inr (map descriptor (filter (matches_filter cfg) (reachable_in dir n)), printed)"
  "fst (entries_loop stat_S_ISDIR cfg dir es)
      = map descriptor (filter (matches_filter cfg) (concat (map (reachable_in dir) es)))"
  "fst (recurse stat_S_ISDIR cfg dir l)
      = map descriptor (filter (matches_filter cfg) (reachable_under dir l))"
proof (induction "stat_S_ISDIR" cfg dir n and "stat_S_ISDIR" cfg dir es and "stat_S_ISDIR" cfg dir l
    rule: visit_entries_loop_recurse.induct)
  case (1 cfg dir name mode l)
  show ?case
  proof (cases "(mode AND 61440) = 16384")
    case True
    then have "fst (recurse stat_S_ISDIR cfg (path_join dir name) l)
        = map descriptor (filter (matches_filter cfg) (reachable_under (path_join dir name) l))"
      by (intro 1) (simp_all add: stat_S_ISDIR_def)
    with True show ?thesis
      by (cases "recurse stat_S_ISDIR cfg (path_join dir name) l")
         (simp add: stat_S_ISDIR_def Let_def)
  next
    case False
    then show ?thesis
      by (simp add: stat_S_ISDIR_def matches_filter_def descriptor_def Let_def)
  qed
next
  case (2 cfg dir)
  show ?case by simp
next
  case (3 cfg dir entry rest)
  from 3(1) obtain printed where v: "visit stat_S_ISDIR cfg dir entry
      = Inr (map descriptor (filter (matches_filter cfg) (reachable_in dir entry)), printed)"
    by blast
  have "fst (entries_loop stat_S_ISDIR cfg dir rest)
      = map descriptor (filter (matches_filter cfg) (concat (map (reachable_in dir) rest)))"
    by (rule 3(2) [OF v refl])
  with v show ?case
    by (cases "entries_loop stat_S_ISDIR cfg dir rest") simp
next
  case (4 cfg dir e)
  show ?case by simp
next
  case (5 cfg dir es)
  then show ?case by simp
qed

text \<open>
  C5 fails on the code. The expression that tests for a directory raises at the first
  entry of every listing, the \<^verbatim>\<open>except\<close> around the loop catches it, and discovery
  returns the empty list for every tree. In the example \<^verbatim>\<open>/data/target_report.csv\<close> and
  \<^verbatim>\<open>/data/archive/target_old.csv\<close> are reachable and match the filter; neither is found.
\<close>

theorem list_files_recursive_finds_nothing:
  "fst (list_files_recursive cfg sftp root) = []
   \<and> list_files_recursive example_cfg example_remote ''/data''
       = ([], [''Error listing /data: type object '' @ [CHR 0x27] @ ''SFTPAttributes'' @ [CHR 0x27]
               @ '' has no attribute '' @ [CHR 0x27] @ ''S_ISDIR'' @ [CHR 0x27]])
   \<and> filter (matches_filter example_cfg) (reachable_under ''/data'' (example_remote ''/data''))
       = [''/data/target_report.csv'', ''/data/archive/target_old.csv'']"
proof (intro conjI)
  show "fst (list_files_recursive cfg sftp root) = []"
    by (rule nothing_found)
  show "list_files_recursive example_cfg example_remote ''/data''
       = ([], [''Error listing /data: type object '' @ [CHR 0x27] @ ''SFTPAttributes'' @ [CHR 0x27]
               @ '' has no attribute '' @ [CHR 0x27] @ ''S_ISDIR'' @ [CHR 0x27]])"
    by (simp add: list_files_recursive_def recurse_paramiko example_remote_def paramiko_S_ISDIR_def)
  show "filter (matches_filter example_cfg) (reachable_under ''/data'' (example_remote ''/data''))
       = [''/data/target_report.csv'', ''/data/archive/target_old.csv'']"
    by (simp add: example_cfg_def example_remote_def not_a_directory_def path_eval)
qed

section \<open>The run only appends to the sink\<close>

lemma only_appends_refl: "only_appends w w"
  by (simp add: only_appends_def split: option.splits)

lemma only_appends_trans: "only_appends a b \<Longrightarrow> only_appends b c \<Longrightarrow> only_appends a c"
  by (auto simp: only_appends_def split: option.splits)

lemma append_log_only_appends: "only_appends w (snd (append_log fault line w))"
  by (simp add: append_log_def only_appends_def split: option.splits)

lemma save_to_database_only_appends:
  "only_appends w (snd (save_to_database fault fname st er wa nfo w))"
  by (simp add: save_to_database_def only_appends_def split: option.splits)

lemma except_block_only_appends: "only_appends w (snd (except_block io fname e w))"
  unfolding except_block_def by (rule append_log_only_appends)

lemma process_file_only_appends: "only_appends w (snd (process_file io file w))"
proof -
  have a: "only_appends w (snd (except_block io fname e w1))" if "only_appends w w1" for fname e w1
    using that except_block_only_appends only_appends_trans by blast
  have b: "only_appends w w1" if "append_log fault line w = (r, w1)" for fault line r w1
    using append_log_only_appends [of w fault line] that by simp
  have c: "only_appends w1 w2" if "save_to_database fault fname st er wa nfo w1 = (r, w2)"
    for fault fname st er wa nfo w1 r w2
    using save_to_database_only_appends [of w1 fault fname st er wa nfo] that by simp
  show ?thesis
    unfolding process_file_def Let_def
    by (auto split: sum.splits prod.splits option.splits
        intro!: a only_appends_refl intro: b c only_appends_trans)
qed

lemma run_in_order_only_appends: "only_appends w (snd (run_in_order tio files ks w))"
proof (induction ks arbitrary: w)
  case Nil
  show ?case by (simp add: only_appends_refl)
next
  case (Cons k ks)
  obtain r w1 where p: "process_file (tio k) (files ! k) w = (r, w1)"
    by (cases "process_file (tio k) (files ! k) w")
  obtain rs w2 where q: "run_in_order tio files ks w1 = (rs, w2)"
    by (cases "run_in_order tio files ks w1")
  have "only_appends w w1" using process_file_only_appends [of w "tio k" "files ! k"] p by simp
  moreover have "only_appends w1 w2" using Cons.IH [of w1] q by simp
  ultimately show ?case using p q by (simp add: only_appends_trans)
qed

lemma run_tasks_only_appends: "only_appends w (snd (run_tasks tio rank fs w))"
  using run_in_order_only_appends [of w tio fs "sort_key rank [0..<length fs]"]
  by (auto simp: run_tasks_def split: prod.splits)

lemma run_tasks_none: "run_tasks tio rank [] w = ([], w)"
  by (simp add: run_tasks_def)

lemma translate_newlines_Nil: "translate_newlines s = [] \<longleftrightarrow> s = []"
  by (induction s rule: translate_newlines.induct) auto

lemma split_lines_Nil: "split_lines cur s = [] \<longleftrightarrow> cur = [] \<and> s = []"
  by (induction s arbitrary: cur) auto

lemma file_lines_Nil: "file_lines s = [] \<longleftrightarrow> s = []"
  by (simp add: file_lines_def split_lines_Nil translate_newlines_Nil)

lemma summary_of_nonempty: "content \<noteq> [] \<Longrightarrow> \<exists>s. generate_summary_report content = Inr s"
  by (cases "file_lines content") (simp_all add: generate_summary_report_def file_lines_Nil Let_def)

lemma run_log_header:
  "prefix LOG_HEADER (log_file (snd (snd (fetch_and_validate_sftp_files cfg roots io w))))"
proof (cases "connect_outcome io")
  case None
  let ?w0 = "w\<lparr>log_file := LOG_HEADER\<rparr>"
  let ?fs = "concat (map fst (map (list_files_recursive cfg (remote io)) roots))"
  have "only_appends ?w0 (snd (run_tasks (task_io_of io) (completion_rank io) ?fs ?w0))"
    by (rule run_tasks_only_appends)
  then have "prefix LOG_HEADER (log_file (snd (run_tasks (task_io_of io) (completion_rank io) ?fs ?w0)))"
    by (simp add: only_appends_def)
  with None show ?thesis
    by (auto simp: fetch_and_validate_sftp_files_def Let_def split: prod.splits)
next
  case (Some e)
  then show ?thesis by (simp add: fetch_and_validate_sftp_files_def Let_def)
qed

lemma run_table:
  "case results_table w of
     None \<Rightarrow> results_table (snd (snd (fetch_and_validate_sftp_files cfg roots io w))) = None
   | Some rows \<Rightarrow> (\<exists>new. results_table (snd (snd (fetch_and_validate_sftp_files cfg roots io w))) = Some (rows @ new))"
proof (cases "connect_outcome io")
  case None
  let ?w0 = "w\<lparr>log_file := LOG_HEADER\<rparr>"
  let ?fs = "concat (map fst (map (list_files_recursive cfg (remote io)) roots))"
  have "only_appends ?w0 (snd (run_tasks (task_io_of io) (completion_rank io) ?fs ?w0))"
    by (rule run_tasks_only_appends)
  then have "case results_table w of
     None \<Rightarrow> results_table (snd (run_tasks (task_io_of io) (completion_rank io) ?fs ?w0)) = None
   | Some rows \<Rightarrow> (\<exists>new. results_table (snd (run_tasks (task_io_of io) (completion_rank io) ?fs ?w0)) = Some (rows @ new))"
    by (auto simp: only_appends_def prefix_def split: option.splits)
  with None show ?thesis
    by (auto simp: fetch_and_validate_sftp_files_def Let_def split: prod.splits option.splits)
next
  case (Some e)
  then show ?thesis by (simp add: fetch_and_validate_sftp_files_def Let_def split: option.splits)
qed

text \<open>
  The order within a run: the header is written first, and the tasks the run submits
  start from the log that holds the header alone.
\<close>

lemma run_starts_tasks_from_header:
  "connect_outcome io = None \<Longrightarrow>
   snd (snd (fetch_and_validate_sftp_files cfg roots io w))
     = snd (run_tasks (task_io_of io) (completion_rank io)
              (concat (map (\<lambda>r. fst (list_files_recursive cfg (remote io) r)) roots))
              (w\<lparr>log_file := LOG_HEADER\<rparr>))"
  by (simp add: fetch_and_validate_sftp_files_def Let_def comp_def split: prod.splits)

text \<open>With the directory test as it is, discovery finds no file and no task is submitted.\<close>

lemma run_world:
  "snd (snd (fetch_and_validate_sftp_files cfg roots io w)) = w\<lparr>log_file := LOG_HEADER\<rparr>"
proof (cases "connect_outcome io")
  case None
  have e: "concat (map (\<lambda>r. fst (list_files_recursive cfg (remote io) r)) roots) = []"
    by (simp add: nothing_found)
  show ?thesis
    using None by (simp add: run_starts_tasks_from_header e run_tasks_none)
next
  case (Some e)
  then show ?thesis by (simp add: fetch_and_validate_sftp_files_def Let_def)
qed

text \<open>
  C10. A run first replaces the log file by the header line alone, whatever the file
  held: the run on a world with any other old log is the same run, and the log it
  leaves starts with the header. As no task is submitted, the world a run leaves is the
  old world with the header alone as its log. The table of results is never emptied:
  after the run it holds the rows it held before, in place, followed by the rows the
  run inserted, and \<^verbatim>\<open>initialize_database\<close> keeps the rows of a table that exists.
\<close>

theorem run_truncates_log_keeps_table:
  "prefix LOG_HEADER (log_file (snd (snd (fetch_and_validate_sftp_files cfg roots io w))))
   \<and> fetch_and_validate_sftp_files cfg roots io (w\<lparr>log_file := old\<rparr>)
       = fetch_and_validate_sftp_files cfg roots io w
   \<and> snd (snd (fetch_and_validate_sftp_files cfg roots io w)) = w\<lparr>log_file := LOG_HEADER\<rparr>
   \<and> (case results_table w of
        None \<Rightarrow> results_table (snd (snd (fetch_and_validate_sftp_files cfg roots io w))) = None
      | Some rows \<Rightarrow>
          (\<exists>new. results_table (snd (snd (fetch_and_validate_sftp_files cfg roots io w)))
                   = Some (rows @ new)))
   \<and> results_table (initialize_database w)
       = Some (case results_table w of None \<Rightarrow> [] | Some rows \<Rightarrow> rows)"
proof -
  have a: "fetch_and_validate_sftp_files cfg roots io (w\<lparr>log_file := old\<rparr>)
       = fetch_and_validate_sftp_files cfg roots io w"
    by (simp add: fetch_and_validate_sftp_files_def)
  have d: "results_table (initialize_database w)
       = Some (case results_table w of None \<Rightarrow> [] | Some rows \<Rightarrow> rows)"
    by (simp add: initialize_database_def split: option.splits)
  show ?thesis
    by (intro conjI run_log_header a run_world run_table d)
qed

section \<open>The example run, evaluated\<close>

lemmas task_eval = process_file_def safe_sftp_operation_def DEFAULT_MAX_RETRIES_def
  sftp_get_attempt_def validate_csv_def strip_def isspace_def validation_state_def
  json_dumps_def json_escape_def hex_digit_def append_log_def save_to_database_def
  except_block_def

lemma default_attempts: "[0..2] = [0, 1, 2::int]"
  by (simp add: upto_rec1)

theorem run_truncates_log_keeps_table_witness:
  "log_file example_world = LOG_HEADER @ ''old.csv,valid,[],[],[]'' @ [CHR 0x0A]
   \<and> results_table example_world = Some [(''old.csv'', ''valid'', ''[]'', ''[]'', ''[]'')]
   \<and> snd (snd (fetch_and_validate_sftp_files example_cfg [''/data''] example_run_io example_world))
     = \<lparr>log_file = LOG_HEADER,
        results_table = Some [(''old.csv'', ''valid'', ''[]'', ''[]'', ''[]'')]\<rparr>
   \<and> snd (snd (fetch_and_validate_sftp_files example_cfg [''/data'']
                  (example_run_io\<lparr>connect_outcome := Some (Exn ''SSHException'' ''timeout'')\<rparr>)
                  example_world))
     = \<lparr>log_file = LOG_HEADER,
        results_table = Some [(''old.csv'', ''valid'', ''[]'', ''[]'', ''[]'')]\<rparr>
   \<and> results_table (initialize_database example_world)
     = Some [(''old.csv'', ''valid'', ''[]'', ''[]'', ''[]'')]"
proof -
  note t = run_truncates_log_keeps_table [of example_cfg "[''/data'']" example_run_io example_world "[]"]
  note u = run_truncates_log_keeps_table [of example_cfg "[''/data'']"
      "example_run_io\<lparr>connect_outcome := Some (Exn ''SSHException'' ''timeout'')\<rparr>" example_world "[]"]
  from t have a: "snd (snd (fetch_and_validate_sftp_files example_cfg [''/data''] example_run_io example_world))
     = \<lparr>log_file = LOG_HEADER,
        results_table = Some [(''old.csv'', ''valid'', ''[]'', ''[]'', ''[]'')]\<rparr>"
    by (simp add: example_world_def)
  from u have b: "snd (snd (fetch_and_validate_sftp_files example_cfg [''/data'']
                  (example_run_io\<lparr>connect_outcome := Some (Exn ''SSHException'' ''timeout'')\<rparr>)
                  example_world))
     = \<lparr>log_file = LOG_HEADER,
        results_table = Some [(''old.csv'', ''valid'', ''[]'', ''[]'', ''[]'')]\<rparr>"
    by (simp add: example_world_def)
  from t have c: "results_table (initialize_database example_world)
     = Some [(''old.csv'', ''valid'', ''[]'', ''[]'', ''[]'')]"
    by (simp add: example_world_def)
  show ?thesis
    using a b c by (simp add: example_world_def)
qed

section \<open>A listing that fails\<close>

lemma run_has_summary:
  "\<exists>s. generate_summary_report
         (log_file (snd (snd (fetch_and_validate_sftp_files cfg roots io w)))) = Inr s"
proof (rule summary_of_nonempty)
  have "prefix LOG_HEADER (log_file (snd (snd (fetch_and_validate_sftp_files cfg roots io w))))"
    by (rule run_log_header)
  then show "log_file (snd (snd (fetch_and_validate_sftp_files cfg roots io w))) \<noteq> []"
    by (auto simp: LOG_HEADER_def)
qed

text \<open>
  What holds of a listing that fails: a root whose listing raises contributes no
  descriptor and one printed line, the roots after it are still listed, the run raises
  what it raises without that root and leaves the same world, and the summary is
  produced. The flat \<^verbatim>\<open>list_csv_files\<close> returns the empty list and logs the failure.
\<close>

lemma listing_failure_of_root:
  assumes "remote io bad = ListError e"
  shows "list_files_recursive cfg (remote io) bad
           = ([], [''Error listing '' @ bad @ '': '' @ exn_text e])"
    and "map (list_files_recursive cfg (remote io)) (ra @ [bad] @ rb)
           = map (list_files_recursive cfg (remote io)) ra
             @ [([], [''Error listing '' @ bad @ '': '' @ exn_text e])]
             @ map (list_files_recursive cfg (remote io)) rb"
    and "fst (fetch_and_validate_sftp_files cfg (ra @ [bad] @ rb) io w)
           = fst (fetch_and_validate_sftp_files cfg (ra @ rb) io w)"
    and "snd (snd (fetch_and_validate_sftp_files cfg (ra @ [bad] @ rb) io w))
           = snd (snd (fetch_and_validate_sftp_files cfg (ra @ rb) io w))"
    and "list_csv_files (listdir_attr(directory := Inl e)) directory
           = ([], [''Error accessing directory '' @ directory @ '': '' @ exn_text e])"
  using assms
  by (simp_all add: fetch_and_validate_sftp_files_def Let_def list_files_recursive_def
      list_csv_files_def split: option.splits prod.splits)

lemma example_run:
  "fetch_and_validate_sftp_files example_cfg [''/missing'', ''/data''] example_run_io example_world
     = (None,
        [''Error listing /missing: No such file'',
         ''Error listing /data: type object '' @ [CHR 0x27] @ ''SFTPAttributes'' @ [CHR 0x27]
           @ '' has no attribute '' @ [CHR 0x27] @ ''S_ISDIR'' @ [CHR 0x27]],
        \<lparr>log_file = LOG_HEADER,
         results_table = Some [(''old.csv'', ''valid'', ''[]'', ''[]'', ''[]'')]\<rparr>)"
  by (simp add: fetch_and_validate_sftp_files_def example_run_io_def list_files_recursive_def
      recurse_paramiko example_remote_def paramiko_S_ISDIR_def run_tasks_none example_world_def)

text \<open>
  C6 fails on the code, by the defect of C5. The roots are \<^verbatim>\<open>/missing\<close>, whose listing
  raises, and \<^verbatim>\<open>/data\<close>, which holds two reports, a directory whose listing raises and,
  after it, a directory with a matching file. The failure of \<^verbatim>\<open>/missing\<close> is printed,
  the run goes on to \<^verbatim>\<open>/data\<close> and ends with a summary. But the traversal of \<^verbatim>\<open>/data\<close>
  ends at its first entry: the directory that would fail is never listed, its sibling
  is never entered, no file of the other root is discovered or processed, and the
  summary counts no file.
\<close>

theorem listing_failure_then_nothing_found:
  "list_files_recursive example_cfg example_remote ''/missing''
     = ([], [''Error listing /missing: No such file''])
   \<and> list_files_recursive example_cfg example_remote ''/data''
     = ([], [''Error listing /data: type object '' @ [CHR 0x27] @ ''SFTPAttributes'' @ [CHR 0x27]
             @ '' has no attribute '' @ [CHR 0x27] @ ''S_ISDIR'' @ [CHR 0x27]])
   \<and> fst (recurse stat_S_ISDIR example_cfg ''/data'' (example_remote ''/data''))
     = [\<lparr>path = ''/data/target_report.csv'', filename = ''target_report.csv''\<rparr>,
        \<lparr>path = ''/data/archive/target_old.csv'', filename = ''target_old.csv''\<rparr>]
   \<and> fetch_and_validate_sftp_files example_cfg [''/missing'', ''/data''] example_run_io example_world
     = (None,
        [''Error listing /missing: No such file'',
         ''Error listing /data: type object '' @ [CHR 0x27] @ ''SFTPAttributes'' @ [CHR 0x27]
           @ '' has no attribute '' @ [CHR 0x27] @ ''S_ISDIR'' @ [CHR 0x27]],
        \<lparr>log_file = LOG_HEADER,
         results_table = Some [(''old.csv'', ''valid'', ''[]'', ''[]'', ''[]'')]\<rparr>)
   \<and> generate_summary_report LOG_HEADER
     = Inr (\<lparr>total_files = 0, valid_files = 0, invalid_files = 0\<rparr>,
            ''Validation Summary:'' @ [CHR 0x0A] @ ''Total Files: 0'' @ [CHR 0x0A]
            @ ''Valid Files: 0'' @ [CHR 0x0A] @ ''Invalid Files: 0'')"
proof (intro conjI)
  show "list_files_recursive example_cfg example_remote ''/missing''
     = ([], [''Error listing /missing: No such file''])"
    by (simp add: list_files_recursive_def example_remote_def)
  show "list_files_recursive example_cfg example_remote ''/data''
     = ([], [''Error listing /data: type object '' @ [CHR 0x27] @ ''SFTPAttributes'' @ [CHR 0x27]
             @ '' has no attribute '' @ [CHR 0x27] @ ''S_ISDIR'' @ [CHR 0x27]])"
    by (simp add: list_files_recursive_def recurse_paramiko example_remote_def paramiko_S_ISDIR_def)
  show "fst (recurse stat_S_ISDIR example_cfg ''/data'' (example_remote ''/data''))
     = [\<lparr>path = ''/data/target_report.csv'', filename = ''target_report.csv''\<rparr>,
        \<lparr>path = ''/data/archive/target_old.csv'', filename = ''target_old.csv''\<rparr>]"
    by (simp only: visit_with_stat_test(3))
       (simp add: example_cfg_def example_remote_def not_a_directory_def path_eval)
  show "fetch_and_validate_sftp_files example_cfg [''/missing'', ''/data''] example_run_io example_world
     = (None,
        [''Error listing /missing: No such file'',
         ''Error listing /data: type object '' @ [CHR 0x27] @ ''SFTPAttributes'' @ [CHR 0x27]
           @ '' has no attribute '' @ [CHR 0x27] @ ''S_ISDIR'' @ [CHR 0x27]],
        \<lparr>log_file = LOG_HEADER,
         results_table = Some [(''old.csv'', ''valid'', ''[]'', ''[]'', ''[]'')]\<rparr>)"
    by (rule example_run)
  show "generate_summary_report LOG_HEADER
     = Inr (\<lparr>total_files = 0, valid_files = 0, invalid_files = 0\<rparr>,
            ''Validation Summary:'' @ [CHR 0x0A] @ ''Total Files: 0'' @ [CHR 0x0A]
            @ ''Valid Files: 0'' @ [CHR 0x0A] @ ''Invalid Files: 0'')"
    by (simp add: generate_summary_report_def file_lines_def LOG_HEADER_def summary_text_def)
qed

section \<open>Properties of the retry\<close>

lemma outcome_0: "outcome func s 0 = fst (func s)"
  by (simp add: outcome_def)

lemma outcome_Suc: "outcome func s (Suc j) = outcome func (snd (func s)) j"
  by (simp add: outcome_def)

lemma retry_loop_success:
  "outcome func s k = Inr v \<Longrightarrow> (\<forall>j<k. \<exists>e. outcome func s j = Inl e) \<Longrightarrow> i + int k \<le> m - 1 \<Longrightarrow>
   retry_loop func m [i..m - 1] s = (Inr (Some v), world_after func s (Suc k))"
proof (induction k arbitrary: i s)
  case 0
  then have "[i..m - 1] = i # [i + 1..m - 1]" by (simp add: upto_rec1)
  moreover from 0 have "fst (func s) = Inr v" by (simp add: outcome_0)
  ultimately show ?case by (cases "func s") simp
next
  case (Suc k)
  from Suc.prems(3) have lt: "i < m - 1" by simp
  then have u: "[i..m - 1] = i # [i + 1..m - 1]" by (simp add: upto_rec1)
  from Suc.prems(2) obtain e where e: "outcome func s 0 = Inl e" by blast
  then obtain s' where f: "func s = (Inl e, s')" by (cases "func s") (simp add: outcome_0)
  have "retry_loop func m [i + 1..m - 1] s' = (Inr (Some v), world_after func s' (Suc k))"
  proof (rule Suc.IH)
    show "outcome func s' k = Inr v" using Suc.prems(1) f by (simp add: outcome_Suc)
    show "\<forall>j<k. \<exists>e. outcome func s' j = Inl e"
      using Suc.prems(2) f by (auto simp: outcome_Suc dest: spec [where x = "Suc _"])
    show "i + 1 + int k \<le> m - 1" using Suc.prems(3) by simp
  qed
  with u f lt show ?case by simp
qed

lemma retry_loop_exhausted:
  "(\<forall>j<n. \<exists>e. outcome func s j = Inl e) \<Longrightarrow> i + int n = m \<Longrightarrow> 0 < n \<Longrightarrow>
   \<exists>e. outcome func s (n - 1) = Inl e
       \<and> retry_loop func m [i..m - 1] s = (Inl e, world_after func s n)"
proof (induction n arbitrary: i s)
  case 0
  then show ?case by simp
next
  case (Suc n)
  from Suc.prems(2) have le: "i \<le> m - 1" by simp
  then have u: "[i..m - 1] = i # [i + 1..m - 1]" by (simp add: upto_rec1)
  from Suc.prems(1) obtain e where e: "outcome func s 0 = Inl e" by blast
  then obtain s' where f: "func s = (Inl e, s')" by (cases "func s") (simp add: outcome_0)
  show ?case
  proof (cases n)
    case 0
    with Suc.prems(2) have "i = m - 1" by simp
    with u f e 0 show ?thesis by simp
  next
    case (Suc n')
    with Suc.prems(2) have ne: "i \<noteq> m - 1" by simp
    have "\<exists>e. outcome func s' (n - 1) = Inl e
       \<and> retry_loop func m [i + 1..m - 1] s' = (Inl e, world_after func s' n)"
    proof (rule Suc.IH)
      show "\<forall>j<n. \<exists>e. outcome func s' j = Inl e"
        using Suc.prems(1) f by (auto simp: outcome_Suc dest: spec [where x = "Suc _"])
      show "i + 1 + int n = m" using Suc.prems(2) by simp
      show "0 < n" using Suc by simp
    qed
    then obtain e' where "outcome func s' (n - 1) = Inl e'"
      "retry_loop func m [i + 1..m - 1] s' = (Inl e', world_after func s' n)" by blast
    with u f ne Suc show ?thesis by (simp add: outcome_Suc)
  qed
qed

text \<open>
  C4, as the code has it. With \<open>max_retries \<ge> 1\<close> the operation is invoked at most
  \<open>max_retries\<close> times: when attempt \<open>k + 1 \<le> max_retries\<close> is the first that returns,
  its value is returned after exactly \<open>k + 1\<close> invocations; when all \<open>max_retries\<close>
  attempts raise, the exception of the last attempt is raised again, as it is, after
  exactly \<open>max_retries\<close> invocations. With \<open>max_retries \<le> 0\<close> the operation is never
  invoked and \<^verbatim>\<open>None\<close> is returned.
\<close>

theorem safe_sftp_operation_attempts:
  "(max_retries \<le> 0 \<longrightarrow> safe_sftp_operation func max_retries s = (Inr None, s))
   \<and> (\<forall>k v. int k < max_retries \<and> outcome func s k = Inr v
              \<and> (\<forall>j<k. \<exists>e. outcome func s j = Inl e)
        \<longrightarrow> safe_sftp_operation func max_retries s
              = (Inr (Some v), world_after func s (Suc k)))
   \<and> (1 \<le> max_retries \<and> (\<forall>j. int j < max_retries \<longrightarrow> (\<exists>e. outcome func s j = Inl e))
        \<longrightarrow> (\<exists>e. outcome func s (nat max_retries - 1) = Inl e
                \<and> safe_sftp_operation func max_retries s
                    = (Inl e, world_after func s (nat max_retries))))"
proof (intro conjI allI impI)
  assume "max_retries \<le> 0"
  then show "safe_sftp_operation func max_retries s = (Inr None, s)"
    by (simp add: safe_sftp_operation_def)
next
  fix k v
  assume a: "int k < max_retries \<and> outcome func s k = Inr v
              \<and> (\<forall>j<k. \<exists>e. outcome func s j = Inl e)"
  show "safe_sftp_operation func max_retries s = (Inr (Some v), world_after func s (Suc k))"
    unfolding safe_sftp_operation_def
    using a by (intro retry_loop_success) auto
next
  assume a: "1 \<le> max_retries \<and> (\<forall>j. int j < max_retries \<longrightarrow> (\<exists>e. outcome func s j = Inl e))"
  show "\<exists>e. outcome func s (nat max_retries - 1) = Inl e
                \<and> safe_sftp_operation func max_retries s
                    = (Inl e, world_after func s (nat max_retries))"
    unfolding safe_sftp_operation_def
    using a by (intro retry_loop_exhausted) auto
qed

lemma fails_twice_outcomes:
  "outcome fails_twice 0 0 = Inl (Exn ''IOError'' ''failure 1'')"
  "outcome fails_twice 0 (Suc 0) = Inl (Exn ''IOError'' ''failure 2'')"
  "outcome fails_twice 0 (Suc (Suc 0)) = Inr 3"
  "world_after fails_twice 0 (Suc (Suc (Suc 0))) = 3"
  by (simp_all add: outcome_def fails_twice_def)

lemma always_fails_world: "world_after always_fails i j = i + j"
  by (induction j arbitrary: i) (simp_all add: always_fails_def)

lemma always_fails_outcome: "\<exists>e. outcome always_fails 0 j = Inl e"
  by (simp add: outcome_def always_fails_def)

theorem safe_sftp_operation_attempts_witness:
  "safe_sftp_operation fails_twice 3 0 = (Inr (Some 3), 3)
   \<and> outcome fails_twice 0 0 = Inl (Exn ''IOError'' ''failure 1'')
   \<and> outcome fails_twice 0 (Suc 0) = Inl (Exn ''IOError'' ''failure 2'')
   \<and> outcome fails_twice 0 (Suc (Suc 0)) = Inr 3
   \<and> safe_sftp_operation always_fails 3 0 = (Inl (Exn ''IOError'' ''failure 3''), 3)
   \<and> safe_sftp_operation fails_twice 0 0 = (Inr None, 0)"
proof -
  note t1 = safe_sftp_operation_attempts [of 3 fails_twice 0, THEN conjunct2, THEN conjunct1,
      rule_format, of "Suc (Suc 0)" 3]
  have "\<forall>j<Suc (Suc 0). \<exists>e. outcome fails_twice 0 j = Inl e"
    by (simp add: less_Suc_eq fails_twice_outcomes)
  then have a: "safe_sftp_operation fails_twice 3 0 = (Inr (Some 3), 3)"
    using t1 by (simp add: fails_twice_outcomes fails_twice_def)
  note t2 = safe_sftp_operation_attempts [of 3 always_fails 0, THEN conjunct2, THEN conjunct2,
      rule_format]
  have "\<exists>e. outcome always_fails 0 (nat 3 - 1) = Inl e
                \<and> safe_sftp_operation always_fails 3 0
                    = (Inl e, world_after always_fails 0 (nat 3))"
    by (rule t2) (simp add: always_fails_outcome)
  then have b: "safe_sftp_operation always_fails 3 0 = (Inl (Exn ''IOError'' ''failure 3''), 3)"
    by (auto simp: always_fails_world outcome_def always_fails_def numeral_2_eq_2)
  note t3 = safe_sftp_operation_attempts [of 0 fails_twice 0, THEN conjunct1, rule_format]
  have c: "safe_sftp_operation fails_twice 0 0 = (Inr None, 0)"
    by (rule t3) simp
  show ?thesis using a b c by (simp add: fails_twice_outcomes)
qed

text \<open>
  C4 as stated fails. With \<open>max_retries = 0\<close> each of the zero attempts has failed, yet
  nothing is raised: \<^verbatim>\<open>None\<close> is returned. And on exhaustion what is raised is the
  exception of the last attempt itself, not a failure of another type that carries it.
\<close>

theorem safe_sftp_operation_counterexample:
  "safe_sftp_operation always_fails 0 0 = (Inr None, 0)
   \<and> safe_sftp_operation always_fails 3 0 = (Inl (Exn ''IOError'' ''failure 3''), 3)
   \<and> outcome always_fails 0 2 = Inl (Exn ''IOError'' ''failure 3'')"
  by (simp add: safe_sftp_operation_def always_fails_def default_attempts outcome_def
      numeral_2_eq_2)


section \<open>Properties of the default validator\<close>

lemma dropWhile_all: "(\<forall>c\<in>set (dropWhile P xs). P c) \<longleftrightarrow> (\<forall>c\<in>set xs. P c)"
  by (induction xs) auto

lemma strip_empty_iff: "strip s = [] \<longleftrightarrow> (\<forall>c\<in>set s. isspace c)"
proof -
  have "strip s = [] \<longleftrightarrow> (\<forall>c\<in>set (rev (dropWhile isspace s)). isspace c)"
    unfolding strip_def by (simp only: rev_is_Nil_conv dropWhile_eq_Nil_conv)
  also have "\<dots> \<longleftrightarrow> (\<forall>c\<in>set s. isspace c)"
    by (simp only: set_rev dropWhile_all)
  finally show ?thesis .
qed

lemma validate_csv_cases:
  "validate_csv content
     = (if \<forall>c\<in>set content. isspace c then ([''CSV content is empty''], [], [])
        else ([], [], [''CSV read successfully'']))"
  by (simp only: validate_csv_def strip_empty_iff)

lemma process_file_fetched:
  assumes "fst (safe_sftp_operation (sftp_get_attempt io) DEFAULT_MAX_RETRIES 0) = Inr r"
    and "read_outcome io = Inr content"
    and "log_outcome io = None"
    and "db_outcome io = None"
    and "results_table w = Some rows"
  shows "process_file io file w
     = (None, w\<lparr>log_file := log_file w @ filename file @ '','' @ validation_state (fst (validate_csv content))
                    @ '','' @ json_dumps (fst (validate_csv content))
                    @ '','' @ json_dumps (fst (snd (validate_csv content)))
                    @ '','' @ json_dumps (snd (snd (validate_csv content))) @ [CHR 0x0A],
                 results_table := Some (rows @ [(filename file, validation_state (fst (validate_csv content)),
                    json_dumps (fst (validate_csv content)), json_dumps (fst (snd (validate_csv content))),
                    json_dumps (snd (snd (validate_csv content))))])\<rparr>)"
  using assms
  by (simp add: process_file_def Let_def append_log_def save_to_database_def split: prod.splits)

text \<open>
  C9. For every content the default validator returns no warning and exactly one of:
  the error \<^verbatim>\<open>CSV content is empty\<close> and no info, when every character is white space
  (the empty content included); or no error and the info \<^verbatim>\<open>CSV read successfully\<close>. So
  the state is \<^verbatim>\<open>valid\<close> iff the content has a character that is not white space, and
  that state is what a task whose fetch returned writes to the log and to the table.
\<close>

theorem validate_csv_default:
  "validate_csv content
     = (if \<forall>c\<in>set content. isspace c then ([''CSV content is empty''], [], [])
        else ([], [], [''CSV read successfully'']))
   \<and> (validation_state (fst (validate_csv content)) = ''valid'' \<longleftrightarrow> (\<exists>c\<in>set content. \<not> isspace c))
   \<and> (fst (safe_sftp_operation (sftp_get_attempt io) DEFAULT_MAX_RETRIES 0) = Inr r
        \<and> read_outcome io = Inr content \<and> log_outcome io = None \<and> db_outcome io = None
        \<and> results_table w = Some rows
      \<longrightarrow> (\<exists>st er wa nf.
             process_file io file w
               = (None, w\<lparr>log_file := log_file w @ filename file @ '','' @ st @ '','' @ er @ '','' @ wa
                                       @ '','' @ nf @ [CHR 0x0A],
                            results_table := Some (rows @ [(filename file, st, er, wa, nf)])\<rparr>)
             \<and> (st = ''valid'' \<longleftrightarrow> (\<exists>c\<in>set content. \<not> isspace c))
             \<and> (st = ''invalid'' \<longleftrightarrow> (\<forall>c\<in>set content. isspace c))))"
proof (intro conjI impI)
  show "validate_csv content
     = (if \<forall>c\<in>set content. isspace c then ([''CSV content is empty''], [], [])
        else ([], [], [''CSV read successfully'']))"
    by (rule validate_csv_cases)
  show v: "validation_state (fst (validate_csv content)) = ''valid'' \<longleftrightarrow> (\<exists>c\<in>set content. \<not> isspace c)"
    by (simp add: validate_csv_cases validation_state_def)
  have i: "validation_state (fst (validate_csv content)) = ''invalid'' \<longleftrightarrow> (\<forall>c\<in>set content. isspace c)"
    by (simp add: validate_csv_cases validation_state_def)
  assume a: "fst (safe_sftp_operation (sftp_get_attempt io) DEFAULT_MAX_RETRIES 0) = Inr r
        \<and> read_outcome io = Inr content \<and> log_outcome io = None \<and> db_outcome io = None
        \<and> results_table w = Some rows"
  then have p: "process_file io file w
     = (None, w\<lparr>log_file := log_file w @ filename file @ '','' @ validation_state (fst (validate_csv content))
                    @ '','' @ json_dumps (fst (validate_csv content))
                    @ '','' @ json_dumps (fst (snd (validate_csv content)))
                    @ '','' @ json_dumps (snd (snd (validate_csv content))) @ [CHR 0x0A],
                 results_table := Some (rows @ [(filename file, validation_state (fst (validate_csv content)),
                    json_dumps (fst (validate_csv content)), json_dumps (fst (snd (validate_csv content))),
                    json_dumps (snd (snd (validate_csv content))))])\<rparr>)"
    by (intro process_file_fetched) simp_all
  show "\<exists>st er wa nf.
             process_file io file w
               = (None, w\<lparr>log_file := log_file w @ filename file @ '','' @ st @ '','' @ er @ '','' @ wa
                                       @ '','' @ nf @ [CHR 0x0A],
                            results_table := Some (rows @ [(filename file, st, er, wa, nf)])\<rparr>)
             \<and> (st = ''valid'' \<longleftrightarrow> (\<exists>c\<in>set content. \<not> isspace c))
             \<and> (st = ''invalid'' \<longleftrightarrow> (\<forall>c\<in>set content. isspace c))"
    using p v i by blast
qed

theorem validate_csv_default_witness:
  "validate_csv ''id,name'' = ([], [], [''CSV read successfully''])
   \<and> validate_csv ('' '' @ [CHR 0x0A]) = ([''CSV content is empty''], [], [])
   \<and> fst (safe_sftp_operation (sftp_get_attempt example_task_io) DEFAULT_MAX_RETRIES 0) = Inr (Some ())
   \<and> read_outcome example_task_io = Inr ''id,name''
   \<and> log_outcome example_task_io = None \<and> db_outcome example_task_io = None
   \<and> results_table header_world = Some []
   \<and> (\<exists>er wa nf.
        process_file example_task_io example_file header_world
          = (None, \<lparr>log_file = LOG_HEADER @ ''target_report.csv,valid,'' @ er @ '','' @ wa @ '','' @ nf @ [CHR 0x0A],
                    results_table = Some [(''target_report.csv'', ''valid'', er, wa, nf)]\<rparr>))"
proof -
  have h: "fst (safe_sftp_operation (sftp_get_attempt example_task_io) DEFAULT_MAX_RETRIES 0) = Inr (Some ())
        \<and> read_outcome example_task_io = Inr ''id,name'' \<and> log_outcome example_task_io = None
        \<and> db_outcome example_task_io = None \<and> results_table header_world = Some []"
    by (simp add: safe_sftp_operation_def DEFAULT_MAX_RETRIES_def default_attempts
        sftp_get_attempt_def example_task_io_def header_world_def)
  note t = validate_csv_default [of "''id,name''" example_task_io "Some ()" header_world "[]" example_file]
  note u = validate_csv_default [of "'' '' @ [CHR 0x0A]" example_task_io "Some ()" header_world "[]" example_file]
  have s: "\<exists>c\<in>set ''id,name''. \<not> isspace c"
    by (simp add: isspace_def)
  from t h s have "\<exists>er wa nf.
        process_file example_task_io example_file header_world
          = (None, header_world\<lparr>log_file := log_file header_world @ filename example_file @ '','' @ ''valid'' @ '','' @ er @ '','' @ wa
                                       @ '','' @ nf @ [CHR 0x0A],
                            results_table := Some ([] @ [(filename example_file, ''valid'', er, wa, nf)])\<rparr>)"
    by blast
  then have p: "\<exists>er wa nf.
        process_file example_task_io example_file header_world
          = (None, \<lparr>log_file = LOG_HEADER @ ''target_report.csv,valid,'' @ er @ '','' @ wa @ '','' @ nf @ [CHR 0x0A],
                    results_table = Some [(''target_report.csv'', ''valid'', er, wa, nf)]\<rparr>)"
    by (simp add: header_world_def example_file_def)
  from t s have a: "validate_csv ''id,name'' = ([], [], [''CSV read successfully''])"
    by simp
  from u have b: "validate_csv ('' '' @ [CHR 0x0A]) = ([''CSV content is empty''], [], [])"
    by (simp add: isspace_def)
  show ?thesis using a b h p by simp
qed


section \<open>One record per file\<close>

lemmas summary_eval = generate_summary_report_def file_lines_def LOG_HEADER_def
  py_in_def sublist_code(3) summary_text_def

text \<open>
  When the insert and the append of the \<^verbatim>\<open>except\<close> block go through, a task appends
  one record, whatever else fails.
\<close>

lemma process_file_one_record:
  assumes "db_outcome io = None" and "results_table w = Some rows"
    and "error_log_outcome io = None"
  shows "\<exists>state rest. log_file (snd (process_file io file w))
           = log_file w @ filename file @ '','' @ state @ '','' @ rest @ [CHR 0x0A]
         \<and> state \<in> {''valid'', ''invalid'', ''error''}"
proof -
  have e: "\<exists>state rest. log_file (snd (except_block io (filename file) x w))
           = log_file w @ filename file @ '','' @ state @ '','' @ rest @ [CHR 0x0A]
         \<and> state \<in> {''valid'', ''invalid'', ''error''}" for x
  proof -
    have k: "log_file (snd (except_block io (filename file) x w))
           = log_file w @ filename file @ '','' @ ''error'' @ '','' @ (exn_text x @ '',,'') @ [CHR 0x0A]
         \<and> ''error'' \<in> {''valid'', ''invalid'', ''error''}"
      using assms(3) by (simp add: except_block_def append_log_def)
    show ?thesis
      by (rule exI [of _ "''error''"], rule exI [of _ "exn_text x @ '',,''"], rule k)
  qed
  show ?thesis
  proof (cases "fst (safe_sftp_operation (sftp_get_attempt io) DEFAULT_MAX_RETRIES 0)")
    case (Inl x)
    then show ?thesis using e [of x] by (simp add: process_file_def)
  next
    case fetched: (Inr r)
    show ?thesis
    proof (cases "read_outcome io")
      case (Inl x)
      with fetched show ?thesis using e [of x] by (simp add: process_file_def)
    next
      case (Inr content)
      obtain errors warnings nfo where v: "validate_csv content = (errors, warnings, nfo)"
        by (cases "validate_csv content")
      show ?thesis
      proof (cases "log_outcome io")
        case (Some x)
        with fetched Inr v show ?thesis using e [of x]
          by (simp add: process_file_def append_log_def)
      next
        case None
        have k: "log_file (snd (process_file io file w))
           = log_file w @ filename file @ '','' @ validation_state errors @ '',''
             @ (json_dumps errors @ '','' @ json_dumps warnings @ '','' @ json_dumps nfo) @ [CHR 0x0A]
         \<and> validation_state errors \<in> {''valid'', ''invalid'', ''error''}"
          using None fetched Inr v assms(1,2)
          by (simp add: process_file_def append_log_def save_to_database_def Let_def
              validation_state_def)
        show ?thesis
          by (rule exI [of _ "validation_state errors"],
              rule exI [of _ "json_dumps errors @ '','' @ json_dumps warnings @ '','' @ json_dumps nfo"],
              rule k)
      qed
    qed
  qed
qed

text \<open>
  C2 fails on the code where the insert into the table raises after the record was
  appended: the \<^verbatim>\<open>except\<close> block then appends a second record, with state
  \<^verbatim>\<open>error\<close>, for the same file, no row is stored, and the summary counts two files.
\<close>

theorem process_file_db_failure_two_records:
  "process_file db_locked_io example_file header_world
     = (None,
        \<lparr>log_file = LOG_HEADER
           @ ''target_report.csv,valid,[],[],['' @ [CHR 0x22] @ ''CSV read successfully'' @ [CHR 0x22] @ '']'' @ [CHR 0x0A]
           @ ''target_report.csv,error,database is locked,,'' @ [CHR 0x0A],
         results_table = Some []\<rparr>)
   \<and> generate_summary_report (log_file (snd (process_file db_locked_io example_file header_world)))
     = Inr (\<lparr>total_files = 2, valid_files = 1, invalid_files = 0\<rparr>,
            ''Validation Summary:'' @ [CHR 0x0A] @ ''Total Files: 2'' @ [CHR 0x0A]
            @ ''Valid Files: 1'' @ [CHR 0x0A] @ ''Invalid Files: 0'')"
  by (simp add: task_eval default_attempts db_locked_io_def example_task_io_def example_file_def
      header_world_def summary_eval)


section \<open>Properties of the summary\<close>

text \<open>
  C1 as stated fails: the summary holds a total, a valid count and an invalid count and
  nothing else. After a run of one file whose fetch fails three times the log holds one
  record with state \<^verbatim>\<open>error\<close>; the total is 1 and both counts are 0.
\<close>

theorem summary_counts_counterexample:
  "process_file fetch_fails_io example_file header_world
     = (None,
        \<lparr>log_file = LOG_HEADER @ ''target_report.csv,error,Failure,,'' @ [CHR 0x0A],
         results_table = Some []\<rparr>)
   \<and> generate_summary_report (log_file (snd (process_file fetch_fails_io example_file header_world)))
     = Inr (\<lparr>total_files = 1, valid_files = 0, invalid_files = 0\<rparr>,
            ''Validation Summary:'' @ [CHR 0x0A] @ ''Total Files: 1'' @ [CHR 0x0A]
            @ ''Valid Files: 0'' @ [CHR 0x0A] @ ''Invalid Files: 0'')
   \<and> valid_files \<lparr>total_files = 1, valid_files = 0, invalid_files = 0\<rparr>
       + invalid_files \<lparr>total_files = 1, valid_files = 0, invalid_files = 0\<rparr>
     \<noteq> total_files \<lparr>total_files = 1, valid_files = 0, invalid_files = 0\<rparr>"
  by (simp add: task_eval default_attempts fetch_fails_io_def example_task_io_def example_file_def
      header_world_def summary_eval)


text \<open>
  The test \<^verbatim>\<open>"valid" in line\<close> also holds of a line that contains \<^verbatim>\<open>invalid\<close>: the
  record of a file with white space only is counted as valid.
\<close>

lemma invalid_record_counted_valid:
  "process_file blank_io example_file header_world
     = (None,
        \<lparr>log_file = LOG_HEADER
           @ ''target_report.csv,invalid,['' @ [CHR 0x22] @ ''CSV content is empty'' @ [CHR 0x22] @ ''],[],[]'' @ [CHR 0x0A],
         results_table = Some [(''target_report.csv'', ''invalid'',
            ''['' @ [CHR 0x22] @ ''CSV content is empty'' @ [CHR 0x22] @ '']'', ''[]'', ''[]'')]\<rparr>)
   \<and> generate_summary_report (log_file (snd (process_file blank_io example_file header_world)))
     = Inr (\<lparr>total_files = 1, valid_files = 1, invalid_files = 0\<rparr>,
            ''Validation Summary:'' @ [CHR 0x0A] @ ''Total Files: 1'' @ [CHR 0x0A]
            @ ''Valid Files: 1'' @ [CHR 0x0A] @ ''Invalid Files: 0'')"
  by (simp add: task_eval default_attempts blank_io_def example_task_io_def example_file_def
      header_world_def summary_eval)

lemma invalid_contains_valid: "py_in ''invalid'' line \<Longrightarrow> py_in ''valid'' line"
proof -
  have "sublist ''valid'' ''invalid''" by (simp add: sublist_code(3))
  then show "py_in ''invalid'' line \<Longrightarrow> py_in ''valid'' line"
    unfolding py_in_def by (rule sublist_order.order.trans)
qed

lemma count_lines_totals:
  "total_files (count_lines s ls) = total_files s + length ls"
  "valid_files (count_lines s ls) = valid_files s + length (filter (py_in ''valid'') ls)"
  "invalid_files (count_lines s ls) = invalid_files s"
proof (induction ls arbitrary: s)
  case Nil
  {
    case 1 show ?case by simp
  next
    case 2 show ?case by simp
  next
    case 3 show ?case by simp
  }
next
  case (Cons l ls)
  have n: "\<not> py_in ''valid'' l \<Longrightarrow> \<not> py_in ''invalid'' l"
    using invalid_contains_valid by blast
  {
    case 1 show ?case by (simp add: Cons.IH(1) Let_def)
  next
    case 2 show ?case by (simp add: Cons.IH(2) Let_def n)
  next
    case 3 show ?case by (simp add: Cons.IH(3) Let_def n)
  }
qed

text \<open>
  C1, as the code has it. On a log with at least one line the summary is returned; its
  total is the number of lines after the header; a line is counted in at most one of
  the valid and invalid counts, and only a line that contains \<^verbatim>\<open>valid\<close> is counted in
  either; so the two counts together are at most the total. There is no error count. On
  an empty file \<^verbatim>\<open>next(log)\<close> raises.
\<close>

theorem summary_counts:
  "(content = [] \<longrightarrow> generate_summary_report content = Inl (Exn ''StopIteration'' []))
   \<and> (content \<noteq> [] \<longrightarrow>
        (\<exists>s. generate_summary_report content = Inr (s, summary_text s)
            \<and> total_files s = length (tl (file_lines content))
            \<and> valid_files s + invalid_files s
                = length (filter (py_in ''valid'') (tl (file_lines content)))
            \<and> valid_files s + invalid_files s \<le> total_files s))"
proof (intro conjI impI)
  assume "content = []"
  then show "generate_summary_report content = Inl (Exn ''StopIteration'' [])"
    by (simp add: generate_summary_report_def file_lines_def)
next
  assume "content \<noteq> []"
  then obtain header records where l: "file_lines content = header # records"
    by (cases "file_lines content") (simp_all add: file_lines_Nil)
  define s where "s = count_lines \<lparr>total_files = 0, valid_files = 0, invalid_files = 0\<rparr> records"
  have g: "generate_summary_report content = Inr (s, summary_text s)"
    by (simp add: generate_summary_report_def l s_def Let_def)
  have t: "total_files s = length records"
    and v: "valid_files s + invalid_files s = length (filter (py_in ''valid'') records)"
    by (simp_all add: s_def count_lines_totals)
  have "length (filter (py_in ''valid'') records) \<le> length records"
    by (rule length_filter_le)
  with g t v l show "\<exists>s. generate_summary_report content = Inr (s, summary_text s)
            \<and> total_files s = length (tl (file_lines content))
            \<and> valid_files s + invalid_files s
                = length (filter (py_in ''valid'') (tl (file_lines content)))
            \<and> valid_files s + invalid_files s \<le> total_files s"
    by (intro exI [of _ s]) simp
qed

theorem summary_counts_witness:
  "mixed_log \<noteq> []
   \<and> generate_summary_report mixed_log
       = Inr (\<lparr>total_files = 3, valid_files = 1, invalid_files = 0\<rparr>,
              summary_text \<lparr>total_files = 3, valid_files = 1, invalid_files = 0\<rparr>)
   \<and> length (tl (file_lines mixed_log)) = 3
   \<and> length (filter (py_in ''valid'') (tl (file_lines mixed_log))) = 1
   \<and> generate_summary_report [] = Inl (Exn ''StopIteration'' [])"
  using summary_counts [of mixed_log] summary_counts [of "[]"]
  by (simp add: mixed_log_def generate_summary_report_def file_lines_def LOG_HEADER_def
      py_in_def sublist_code(3) Let_def numeral_3_eq_3)

section \<open>Fetch before delete\<close>

lemma calls_say [simp]: "calls (say line s) = calls s"
  by (simp add: say_def)

lemma dff_append:
  "delete_follows_fetch prev (xs @ ys)
     \<longleftrightarrow> delete_follows_fetch prev xs
          \<and> delete_follows_fetch (if xs = [] then prev else Some (last xs)) ys"
  by (induction prev xs rule: delete_follows_fetch.induct) auto

lemma fetch_one_calls:
  "calls (fetch_one srv rd ld s fname)
     = calls s
       @ (case do_get srv (path_join rd fname) (path_join ld fname) (remote_state s) of
            (Some e, w1) \<Rightarrow> [GetCall (path_join rd fname) (path_join ld fname) (Some e)]
          | (None, w1) \<Rightarrow>
              [GetCall (path_join rd fname) (path_join ld fname) None,
               RemoveCall (path_join rd fname) (fst (do_remove srv (path_join rd fname) w1))])"
  by (simp add: fetch_one_def sftp_get_def sftp_remove_def say_def Let_def
      split: prod.splits option.splits)

lemma fetch_and_delete_file_calls:
  "calls (fetch_and_delete_file srv ld rd fname s)
     = calls s
       @ (case do_get srv (path_join rd fname) (path_join ld fname) (remote_state s) of
            (Some e, w1) \<Rightarrow> [GetCall (path_join rd fname) (path_join ld fname) (Some e)]
          | (None, w1) \<Rightarrow>
              [GetCall (path_join rd fname) (path_join ld fname) None,
               RemoveCall (path_join rd fname) (fst (do_remove srv (path_join rd fname) w1))])"
  by (simp add: fetch_and_delete_file_def sftp_get_def sftp_remove_def say_def Let_def
      split: prod.splits option.splits)

lemma fetch_one_ordered:
  "delete_follows_fetch None (calls s) \<Longrightarrow> delete_follows_fetch None (calls (fetch_one srv rd ld s fname))"
  by (simp add: fetch_one_calls dff_append split: prod.splits option.splits)

lemma fetch_and_delete_file_ordered:
  "delete_follows_fetch None (calls s) \<Longrightarrow>
   delete_follows_fetch None (calls (fetch_and_delete_file srv ld rd fname s))"
  by (simp add: fetch_and_delete_file_calls dff_append split: prod.splits option.splits)

lemma foldl_fetch_one_ordered:
  "delete_follows_fetch None (calls s) \<Longrightarrow>
   delete_follows_fetch None (calls (foldl (fetch_one srv rd ld) s batch))"
  by (induction batch arbitrary: s) (simp_all add: fetch_one_ordered)

lemma fetch_batch_ordered:
  "delete_follows_fetch None (calls s) \<Longrightarrow>
   delete_follows_fetch None (calls (fetch_batch srv rd ld files s i))"
  by (simp add: fetch_batch_def Let_def foldl_fetch_one_ordered)

lemma foldl_fetch_batch_ordered:
  "delete_follows_fetch None (calls s) \<Longrightarrow>
   delete_follows_fetch None (calls (foldl (fetch_batch srv rd ld files) s indices))"
  by (induction indices arbitrary: s) (simp_all add: fetch_batch_ordered)

lemma fetch_and_delete_files_ordered:
  assumes "delete_follows_fetch None (calls s)"
  shows "delete_follows_fetch None (calls (fetch_and_delete_files srv rd ld s))"
proof -
  obtain files printed
    where l: "list_csv_files (\<lambda>d. do_listdir_attr srv d (remote_state s)) rd = (files, printed)"
    by (cases "list_csv_files (\<lambda>d. do_listdir_attr srv d (remote_state s)) rd")
  let ?s0 = "say (''Found '' @ str_nat (length files) @ '' .csv files in '' @ rd)
               (s\<lparr>logged := logged s @ printed\<rparr>)"
  have "delete_follows_fetch None (calls ?s0)"
    using assms by simp
  then have "delete_follows_fetch None
      (calls (foldl (fetch_batch srv rd ld files) ?s0 (range_step 0 (length files) BATCH_SIZE)))"
    by (rule foldl_fetch_batch_ordered)
  then show ?thesis
    by (simp only: fetch_and_delete_files_def l prod.case)
qed

lemma dff_remove_after_get:
  "delete_follows_fetch prev cs \<Longrightarrow> i < length cs \<Longrightarrow> cs ! i = RemoveCall rp r \<Longrightarrow>
   \<exists>lp. (if i = 0 then prev else Some (cs ! (i - 1))) = Some (GetCall rp lp None)"
proof (induction prev cs arbitrary: i rule: delete_follows_fetch.induct)
  case (1 prev)
  then show ?case by simp
next
  case (2 prev rp' lp' r' cs)
  from "2.prems"(3) obtain j where i: "i = Suc j" by (cases i) auto
  with "2.prems" have "delete_follows_fetch (Some (GetCall rp' lp' r')) cs" "j < length cs"
    "cs ! j = RemoveCall rp r" by simp_all
  then have "\<exists>lp. (if j = 0 then Some (GetCall rp' lp' r') else Some (cs ! (j - 1)))
                 = Some (GetCall rp lp None)"
    by (rule "2.IH")
  then show ?case unfolding i by (cases j) simp_all
next
  case (3 prev rp' r' cs)
  show ?case
  proof (cases i)
    case 0
    with "3.prems" show ?thesis
      by (auto split: option.splits call.splits)
  next
    case (Suc j)
    with "3.prems" have "delete_follows_fetch (Some (RemoveCall rp' r')) cs" "j < length cs"
      "cs ! j = RemoveCall rp r" by simp_all
    then have "\<exists>lp. (if j = 0 then Some (RemoveCall rp' r') else Some (cs ! (j - 1)))
                 = Some (GetCall rp lp None)"
      by (rule "3.IH")
    then show ?thesis unfolding Suc by (cases j) simp_all
  qed
qed

text \<open>
  C3. One task makes either a \<^verbatim>\<open>get\<close> that raises and nothing more, or a \<^verbatim>\<open>get\<close> that
  returns followed by the \<^verbatim>\<open>remove\<close> of the same remote path: after a fetch that raises
  no delete is invoked. In the whole sequential run every \<^verbatim>\<open>remove\<close> comes right after
  a \<^verbatim>\<open>get\<close> of the same path that returned.
\<close>

theorem delete_only_after_fetch:
  "calls (fetch_and_delete_file srv ld rd fname s)
     = calls s
       @ (case do_get srv (path_join rd fname) (path_join ld fname) (remote_state s) of
            (Some e, w1) \<Rightarrow> [GetCall (path_join rd fname) (path_join ld fname) (Some e)]
          | (None, w1) \<Rightarrow>
              [GetCall (path_join rd fname) (path_join ld fname) None,
               RemoveCall (path_join rd fname) (fst (do_remove srv (path_join rd fname) w1))])
   \<and> calls (fetch_one srv rd ld s fname)
     = calls s
       @ (case do_get srv (path_join rd fname) (path_join ld fname) (remote_state s) of
            (Some e, w1) \<Rightarrow> [GetCall (path_join rd fname) (path_join ld fname) (Some e)]
          | (None, w1) \<Rightarrow>
              [GetCall (path_join rd fname) (path_join ld fname) None,
               RemoveCall (path_join rd fname) (fst (do_remove srv (path_join rd fname) w1))])
   \<and> (delete_follows_fetch None (calls s)
        \<longrightarrow> delete_follows_fetch None (calls (fetch_and_delete_files srv rd ld s)))
   \<and> (\<forall>i rp r. delete_follows_fetch None (calls s)
          \<and> i < length (calls (fetch_and_delete_files srv rd ld s))
          \<and> calls (fetch_and_delete_files srv rd ld s) ! i = RemoveCall rp r
        \<longrightarrow> 0 < i
            \<and> (\<exists>lp. calls (fetch_and_delete_files srv rd ld s) ! (i - 1) = GetCall rp lp None))"
proof (intro conjI allI impI)
  fix i rp r
  assume a: "delete_follows_fetch None (calls s)
          \<and> i < length (calls (fetch_and_delete_files srv rd ld s))
          \<and> calls (fetch_and_delete_files srv rd ld s) ! i = RemoveCall rp r"
  then have "delete_follows_fetch None (calls (fetch_and_delete_files srv rd ld s))"
    by (simp add: fetch_and_delete_files_ordered)
  with a have e: "\<exists>lp. (if i = 0 then None
                      else Some (calls (fetch_and_delete_files srv rd ld s) ! (i - 1)))
                 = Some (GetCall rp lp None)"
    by (intro dff_remove_after_get) simp_all
  then show "0 < i" by (cases i) simp_all
  with e show "\<exists>lp. calls (fetch_and_delete_files srv rd ld s) ! (i - 1) = GetCall rp lp None"
    by simp
qed (simp_all add: fetch_and_delete_file_calls fetch_one_calls fetch_and_delete_files_ordered)

lemma range_two: "range_step 0 (Suc (Suc 0)) 50 = [0]"
  by (simp add: range_step_more range_step_done)

lemma example_files:
  "list_csv_files (\<lambda>d. do_listdir_attr example_server d (remote_state example_session)) ''/in''
     = ([''a.csv'', ''b.csv''], [])"
  by (simp add: list_csv_files_def example_server_def example_session_def CSV_EXTENSION_def
      endswith_def suffix_to_prefix)

lemma example_calls:
  "calls (fetch_and_delete_files example_server ''/in'' ''/tmp'' example_session)
     = [GetCall ''/in/a.csv'' ''/tmp/a.csv'' None, RemoveCall ''/in/a.csv'' None,
        GetCall ''/in/b.csv'' ''/tmp/b.csv'' (Some (Exn ''OSError'' ''Failure''))]"
  by (simp add: fetch_and_delete_files_def example_files range_two fetch_batch_def slice_def
        BATCH_SIZE_def fetch_one_calls)
     (simp add: example_server_def example_session_def say_def path_join_def endswith_def
      suffix_to_prefix fetch_one_def sftp_get_def sftp_remove_def)

theorem delete_only_after_fetch_witness:
  "delete_follows_fetch None (calls example_session)
   \<and> calls (fetch_and_delete_files example_server ''/in'' ''/tmp'' example_session)
     = [GetCall ''/in/a.csv'' ''/tmp/a.csv'' None, RemoveCall ''/in/a.csv'' None,
        GetCall ''/in/b.csv'' ''/tmp/b.csv'' (Some (Exn ''OSError'' ''Failure''))]
   \<and> delete_follows_fetch None (calls (fetch_and_delete_files example_server ''/in'' ''/tmp'' example_session))
   \<and> calls (fetch_and_delete_files example_server ''/in'' ''/tmp'' example_session) ! 1
     = RemoveCall ''/in/a.csv'' None
   \<and> (\<exists>lp. calls (fetch_and_delete_files example_server ''/in'' ''/tmp'' example_session) ! (1 - 1)
            = GetCall ''/in/a.csv'' lp None)
   \<and> calls (fetch_and_delete_file example_server ''/tmp'' ''/in'' ''b.csv'' example_session)
     = [GetCall ''/in/b.csv'' ''/tmp/b.csv'' (Some (Exn ''OSError'' ''Failure''))]"
proof -
  have h: "delete_follows_fetch None (calls example_session)"
    by (simp add: example_session_def)
  note t = delete_only_after_fetch [of example_server "''/tmp''" "''/in''" "''b.csv''" example_session]
  from t h have o: "delete_follows_fetch None
      (calls (fetch_and_delete_files example_server ''/in'' ''/tmp'' example_session))"
    by blast
  have r: "calls (fetch_and_delete_files example_server ''/in'' ''/tmp'' example_session) ! 1
     = RemoveCall ''/in/a.csv'' None"
    by (simp add: example_calls)
  have "1 < length (calls (fetch_and_delete_files example_server ''/in'' ''/tmp'' example_session))"
    by (simp add: example_calls)
  with t h r have g: "\<exists>lp. calls (fetch_and_delete_files example_server ''/in'' ''/tmp'' example_session) ! (1 - 1)
            = GetCall ''/in/a.csv'' lp None"
    by blast
  from t have f: "calls (fetch_and_delete_file example_server ''/tmp'' ''/in'' ''b.csv'' example_session)
     = [GetCall ''/in/b.csv'' ''/tmp/b.csv'' (Some (Exn ''OSError'' ''Failure''))]"
    by (simp add: example_server_def example_session_def path_join_def endswith_def suffix_to_prefix)
  show ?thesis
    by (intro conjI h example_calls o r g f)
qed

end
